theory Spec2Isabelle
  imports Complex_Main "HOL-Library.Char_ord" "HOL-Library.List_Lexorder"
begin

section \<open>JavaScript library functions used by the sources\<close>

text \<open>
  Numbers of the sources are IEEE doubles. Sizes, counts, limits and timestamps are
  integers far below \<open>2^53\<close> and are modelled by \<open>nat\<close> and \<open>int\<close>, on which the
  arithmetic of the sources is exact; interest scores are modelled by \<open>real\<close>, so the
  rounding of the products \<open>score * 0.9 ^ k\<close> is not represented.
  Objects used as dictionaries are modelled as maps over their own keys.
  Every call of \<open>Date.now()\<close> is a separate reading of a clock: a function takes the
  readings \<open>now 0, now 1, \<dots>\<close> that its calls observe, in order. In the same way
  \<open>rnd i\<close> is the value of the \<open>i\<close>-th call of \<open>Math.random()\<close>.
\<close>

type_synonym clock = "nat \<Rightarrow> int"

definition isWhiteSpace :: "char \<Rightarrow> bool" where
  "isWhiteSpace c = (of_char c \<in> {9::nat, 10, 11, 12, 13, 32, 160})"

definition trim :: "string \<Rightarrow> string" where
  "trim s = rev (dropWhile isWhiteSpace (rev (dropWhile isWhiteSpace s)))"

definition lowerChar :: "char \<Rightarrow> char" where
  "lowerChar c = (let n = (of_char c :: nat) in if 65 \<le> n \<and> n \<le> 90 then char_of (n + 32) else c)"

definition toLowerCase :: "string \<Rightarrow> string" where
  "toLowerCase s = map lowerChar s"

fun startsWith :: "string \<Rightarrow> string \<Rightarrow> bool" where
  "startsWith s [] = True"
| "startsWith [] (k # ks) = False"
| "startsWith (c # cs) (k # ks) = (c = k \<and> startsWith cs ks)"

fun includes_str :: "string \<Rightarrow> string \<Rightarrow> bool" where
  "includes_str [] k = (k = [])"
| "includes_str (c # cs) k = (startsWith (c # cs) k \<or> includes_str cs k)"

text \<open>\<open>[...new Set(xs)]\<close>: the first occurrence of every element, in order.\<close>

fun dedupe :: "'a list \<Rightarrow> 'a list" where
  "dedupe [] = []"
| "dedupe (x # xs) = x # dedupe (filter (\<lambda>y. y \<noteq> x) xs)"

text \<open>\<open>xs.slice(start)\<close> and \<open>xs.slice(0, end)\<close>; a negative argument counts from the end.\<close>

definition slice_from :: "int \<Rightarrow> 'a list \<Rightarrow> 'a list" where
  "slice_from start xs =
     (let len = int (length xs);
          k = (if start < 0 then max (len + start) 0 else min start len)
      in drop (nat k) xs)"

definition slice_to :: "int \<Rightarrow> 'a list \<Rightarrow> 'a list" where
  "slice_to end xs =
     (let len = int (length xs);
          k = (if end < 0 then max (len + end) 0 else min end len)
      in take (nat k) xs)"

text \<open>\<open>xs.splice(start, 0, x)\<close>: insertion in front of position \<open>start\<close>.\<close>

definition splice_insert :: "int \<Rightarrow> 'a \<Rightarrow> 'a list \<Rightarrow> 'a list" where
  "splice_insert start x xs =
     (let len = int (length xs);
          k = nat (if start < 0 then max (len + start) 0 else min start len)
      in take k xs @ x # drop k xs)"

fun decimal :: "nat \<Rightarrow> string" where
  "decimal n = (if n < 10 then [char_of (48 + n)] else decimal (n div 10) @ [char_of (48 + n mod 10)])"

declare decimal.simps [simp del]

definition toString :: "int \<Rightarrow> string" where
  "toString i = (if i < 0 then CHR ''-'' # decimal (nat (- i)) else decimal (nat i))"

section \<open>User profile (services/userProfile.ts)\<close>

definition LIKE :: real where "LIKE = 5"
definition DISLIKE :: real where "DISLIKE = - 10"
definition SAVE :: real where "SAVE = 3"
definition COMPLETION_HIGH :: real where "COMPLETION_HIGH = 2"
definition SKIP_EARLY :: real where "SKIP_EARLY = - 3"
definition RELISTEN :: real where "RELISTEN = 4"

definition DECAY_RATE :: real where "DECAY_RATE = 9 / 10"
definition DECAY_INTERVAL_MS :: int where "DECAY_INTERVAL_MS = 7 * 24 * 60 * 60 * 1000"

definition AVAILABLE_TAGS :: "string list" where
  "AVAILABLE_TAGS =
    [''Lofi'', ''Cinematic'', ''Electronic'', ''Hip-Hop'', ''Rock'', ''Pop'',
     ''Jazz'', ''Classical'', ''R&B'', ''Indie'', ''Metal'', ''Country'',
     ''Synthwave'', ''Phonk'', ''Techno'', ''Ambient'', ''Focus'', ''Workout'',
     ''Relax'', ''Party'', ''Sad'', ''Happy'', ''Energetic'', ''Chill'']"

datatype Action = Like | Dislike | Save | Play | Skip | Complete

datatype InterestAction = I_like | I_dislike | I_save | I_complete_high | I_skip_early | I_relisten

record SongInteraction =
  si_songId :: string
  si_timestamp :: int
  si_action :: Action
  si_completionRate :: "real option"
  si_tags :: "string list"

record InterestEntry =
  score :: real
  lastUpdated :: int

type_synonym InterestMap = "string \<rightharpoonup> InterestEntry"

record ListenHistory =
  lh_songId :: string
  lh_playCount :: nat
  lh_lastPlayed :: int
  lh_totalTimeListened :: nat

record UserProfile =
  p_id :: string
  interestMap :: InterestMap
  listenHistory :: "string \<rightharpoonup> ListenHistory"
  interactions :: "SongInteraction list"
  likedSongs :: "string list"
  dislikedSongs :: "string list"
  savedSongs :: "string list"
  createdAt :: int
  lastActive :: int

text \<open>
  \<open>saveUserProfile\<close> stamps \<open>lastActive\<close> and offers the profile to \<open>localStorage\<close>.
  The write is best effort, and nothing below reads it back: what a later
  \<open>loadUserProfile\<close> finds in the storage is an argument of that function.
\<close>

definition saveUserProfile :: "clock \<Rightarrow> nat \<Rightarrow> UserProfile \<Rightarrow> UserProfile \<times> nat" where
  "saveUserProfile now n profile = (profile\<lparr>lastActive := now n\<rparr>, Suc n)"

definition decayEntry :: "int \<Rightarrow> InterestEntry \<Rightarrow> InterestEntry" where
  "decayEntry now interest =
     (let timeSinceUpdate = now - lastUpdated interest;
          decayPeriods = \<lfloor>real_of_int timeSinceUpdate / real_of_int DECAY_INTERVAL_MS\<rfloor>
      in if decayPeriods > 0
         then interest\<lparr>score := score interest * DECAY_RATE ^ nat decayPeriods, lastUpdated := now\<rparr>
         else interest)"

definition applyTimeDecay :: "clock \<Rightarrow> nat \<Rightarrow> UserProfile \<Rightarrow> UserProfile \<times> nat" where
  "applyTimeDecay now n profile =
     (profile\<lparr>interestMap := (\<lambda>tag. map_option (decayEntry (now n)) (interestMap profile tag))\<rparr>, Suc n)"

text \<open>The fresh profile of \<open>loadUserProfile\<close>: the branch taken when nothing usable is stored.\<close>

definition seedTags :: "clock \<Rightarrow> nat \<Rightarrow> string list \<Rightarrow> InterestMap \<Rightarrow> InterestMap \<times> nat" where
  "seedTags now n tags m =
     foldl (\<lambda>(m, k) tag. (m(tag \<mapsto> \<lparr>score = 0, lastUpdated = now k\<rparr>), Suc k)) (m, n) tags"

definition newProfile :: "clock \<Rightarrow> nat \<Rightarrow> UserProfile \<times> nat" where
  "newProfile now n =
     (let p = \<lparr>p_id = ''user_'' @ toString (now n), interestMap = Map.empty,
               listenHistory = Map.empty, interactions = [], likedSongs = [],
               dislikedSongs = [], savedSongs = [],
               createdAt = now (n + 1), lastActive = now (n + 2)\<rparr>;
          (m, k) = seedTags now (n + 3) AVAILABLE_TAGS (interestMap p)
      in saveUserProfile now k (p\<lparr>interestMap := m\<rparr>))"

text \<open>
  What \<open>localStorage.getItem\<close> and \<open>JSON.parse\<close> produce: no item (or an empty string),
  something on which the \<open>try\<close> block throws, or a profile.
\<close>

datatype Stored = NoItem | Unreadable | Parsed UserProfile

definition loadUserProfile :: "clock \<Rightarrow> Stored \<Rightarrow> UserProfile" where
  "loadUserProfile now stored =
     (case stored of
        Parsed profile \<Rightarrow> fst (applyTimeDecay now 0 profile)
      | _ \<Rightarrow> fst (newProfile now 0))"

definition points_of :: "InterestAction \<Rightarrow> real" where
  "points_of action =
     (case action of
        I_like \<Rightarrow> LIKE | I_dislike \<Rightarrow> DISLIKE | I_save \<Rightarrow> SAVE
      | I_complete_high \<Rightarrow> COMPLETION_HIGH | I_skip_early \<Rightarrow> SKIP_EARLY
      | I_relisten \<Rightarrow> RELISTEN)"

definition bumpTag :: "real \<Rightarrow> int \<Rightarrow> InterestMap \<Rightarrow> string \<Rightarrow> InterestMap" where
  "bumpTag points t m tag =
     (let normalizedTag = trim tag;
          e = (case m normalizedTag of None \<Rightarrow> \<lparr>score = 0, lastUpdated = t\<rparr> | Some e \<Rightarrow> e)
      in m(normalizedTag \<mapsto> \<lparr>score = score e + points, lastUpdated = t\<rparr>))"

definition updateInterestScore ::
  "clock \<Rightarrow> nat \<Rightarrow> UserProfile \<Rightarrow> string list \<Rightarrow> InterestAction \<Rightarrow> UserProfile \<times> nat" where
  "updateInterestScore now n profile songTags action =
     (let points = points_of action;
          t = now n
      in saveUserProfile now (Suc n)
           (profile\<lparr>interestMap := foldl (bumpTag points t) (interestMap profile) songTags\<rparr>))"

text \<open>The \<open>switch\<close> of \<open>recordInteraction\<close> over the action.\<close>

definition updateLists ::
  "clock \<Rightarrow> nat \<Rightarrow> UserProfile \<Rightarrow> string \<Rightarrow> Action \<Rightarrow> string list \<Rightarrow> real option
     \<Rightarrow> UserProfile \<times> nat" where
  "updateLists now n profile songId action tags completionRate =
     (case action of
        Like \<Rightarrow>
          updateInterestScore now n
            (if songId \<notin> set (likedSongs profile)
             then profile\<lparr>likedSongs := likedSongs profile @ [songId],
                          dislikedSongs := filter (\<lambda>i. i \<noteq> songId) (dislikedSongs profile)\<rparr>
             else profile) tags I_like
      | Dislike \<Rightarrow>
          updateInterestScore now n
            (if songId \<notin> set (dislikedSongs profile)
             then profile\<lparr>dislikedSongs := dislikedSongs profile @ [songId],
                          likedSongs := filter (\<lambda>i. i \<noteq> songId) (likedSongs profile)\<rparr>
             else profile) tags I_dislike
      | Save \<Rightarrow>
          updateInterestScore now n
            (if songId \<notin> set (savedSongs profile)
             then profile\<lparr>savedSongs := savedSongs profile @ [songId]\<rparr>
             else profile) tags I_save
      | Complete \<Rightarrow>
          (if (case completionRate of None \<Rightarrow> False | Some r \<Rightarrow> r \<noteq> 0 \<and> r > 8 / 10)
           then updateInterestScore now n profile tags I_complete_high
           else (profile, n))
      | Skip \<Rightarrow> updateInterestScore now n profile tags I_skip_early
      | Play \<Rightarrow> (profile, n))"

text \<open>The creation of the listen-history entry, which runs for every action.\<close>

definition ensureHistory :: "clock \<Rightarrow> nat \<Rightarrow> UserProfile \<Rightarrow> string \<Rightarrow> UserProfile \<times> nat" where
  "ensureHistory now n profile songId =
     (case listenHistory profile songId of
        None \<Rightarrow>
          (profile\<lparr>listenHistory := (listenHistory profile)(songId \<mapsto>
              \<lparr>lh_songId = songId, lh_playCount = 0, lh_lastPlayed = now n,
               lh_totalTimeListened = 0\<rparr>)\<rparr>, Suc n)
      | Some h \<Rightarrow> (profile, n))"

text \<open>
  The play/complete branch. \<open>history\<close> is the entry read before the relisten update,
  which leaves the listen history alone; the entry is there after \<open>ensureHistory\<close>.
\<close>

definition countPlay ::
  "clock \<Rightarrow> nat \<Rightarrow> UserProfile \<Rightarrow> string \<Rightarrow> string list \<Rightarrow> UserProfile \<times> nat" where
  "countPlay now n profile songId tags =
     (case listenHistory profile songId of
        None \<Rightarrow> (profile, n)
      | Some history \<Rightarrow>
          (let isRelisten = now n - lh_lastPlayed history < 24 * 60 * 60 * 1000;
               (p1, n1) = (if isRelisten \<and> lh_playCount history > 1
                           then updateInterestScore now (Suc n) profile tags I_relisten
                           else (profile, Suc n))
           in (p1\<lparr>listenHistory := (listenHistory p1)(songId \<mapsto>
                    history\<lparr>lh_playCount := lh_playCount history + 1, lh_lastPlayed := now n1\<rparr>)\<rparr>,
               Suc n1)))"

definition recordInteraction ::
  "clock \<Rightarrow> UserProfile \<Rightarrow> string \<Rightarrow> Action \<Rightarrow> string list \<Rightarrow> real option \<Rightarrow> UserProfile" where
  "recordInteraction now profile songId action tags completionRate =
     (let interaction = \<lparr>si_songId = songId, si_timestamp = now 0, si_action = action,
                         si_completionRate = completionRate, si_tags = tags\<rparr>;
          pushed = interactions profile @ [interaction];
          p1 = profile\<lparr>interactions :=
                 (if length pushed > 500 then slice_from (- 500) pushed else pushed)\<rparr>;
          (p2, n2) = updateLists now 1 p1 songId action tags completionRate;
          (p3, n3) = ensureHistory now n2 p2 songId;
          (p4, n4) = (if action = Play \<or> action = Complete
                      then countPlay now n3 p3 songId tags else (p3, n3))
      in fst (saveUserProfile now n4 p4))"

definition getSongStatus :: "UserProfile \<Rightarrow> string \<Rightarrow> bool \<times> bool \<times> bool" where
  "getSongStatus profile songId =
     (songId \<in> set (likedSongs profile), songId \<in> set (dislikedSongs profile),
      songId \<in> set (savedSongs profile))"

text \<open>
  One call of \<open>recordInteraction\<close> with the clock readings it observes, a run of calls on
  one profile object, and the event a call appends to the log.
\<close>

record Call =
  c_now :: clock
  c_songId :: string
  c_action :: Action
  c_tags :: "string list"
  c_completionRate :: "real option"

definition applyCall :: "UserProfile \<Rightarrow> Call \<Rightarrow> UserProfile" where
  "applyCall profile c =
     recordInteraction (c_now c) profile (c_songId c) (c_action c) (c_tags c) (c_completionRate c)"

definition runCalls :: "UserProfile \<Rightarrow> Call list \<Rightarrow> UserProfile" where
  "runCalls profile cs = foldl applyCall profile cs"

definition eventOf :: "Call \<Rightarrow> SongInteraction" where
  "eventOf c = \<lparr>si_songId = c_songId c, si_timestamp = c_now c 0, si_action = c_action c,
                si_completionRate = c_completionRate c, si_tags = c_tags c\<rparr>"

definition freshProfile :: "clock \<Rightarrow> UserProfile" where
  "freshProfile now = loadUserProfile now NoItem"

section \<open>Recommendation engine (services/recommendationEngine.ts)\<close>

record Track =
  t_id :: string
  t_title :: string
  t_artist :: string
  t_albumArt :: string
  t_genre :: string
  t_duration :: string
  t_audioUrl :: string
  t_videoId :: "string option"
  t_isPlaying :: "bool option"
  t_lyrics :: "string list option"

record ScoredTrack =
  st_track :: Track
  st_score :: real
  st_matchedTags :: "string list"
  st_isDiscovery :: bool

definition SERENDIPITY_RATIO :: real where "SERENDIPITY_RATIO = 1 / 10"

definition genreToMoods :: "(string \<times> string list) list" where
  "genreToMoods =
    [(''Synthwave'', [''Electronic'', ''Energetic'', ''Cinematic'']),
     (''Phonk'', [''Hip-Hop'', ''Energetic'', ''Party'']),
     (''Lo-fi'', [''Lofi'', ''Chill'', ''Relax'', ''Focus'']),
     (''Jazz'', [''Chill'', ''Relax'', ''Classical'']),
     (''Techno'', [''Electronic'', ''Energetic'', ''Party'', ''Workout'']),
     (''Deep Tech'', [''Electronic'', ''Focus'', ''Chill'']),
     (''Hyperpop'', [''Pop'', ''Energetic'', ''Electronic''])]"

definition moodKeywords :: "(string \<times> string list) list" where
  "moodKeywords =
    [(''chill'', [''Chill'', ''Relax'']),
     (''relax'', [''Relax'', ''Chill'', ''Ambient'']),
     (''energy'', [''Energetic'', ''Workout'']),
     (''focus'', [''Focus'', ''Ambient'']),
     (''sad'', [''Sad'', ''Chill'']),
     (''happy'', [''Happy'', ''Energetic'']),
     (''night'', [''Chill'', ''Ambient'']),
     (''dream'', [''Ambient'', ''Chill'', ''Cinematic'']),
     (''dark'', [''Cinematic'', ''Ambient'']),
     (''cyber'', [''Electronic'', ''Synthwave'']),
     (''neon'', [''Synthwave'', ''Electronic''])]"

definition extractTags :: "Track \<Rightarrow> string list" where
  "extractTags track =
     (let fromGenre =
            (if t_genre track \<noteq> []
             then (let normalizedGenre = trim (t_genre track)
                   in normalizedGenre #
                      (case map_of genreToMoods normalizedGenre of
                         Some moods \<Rightarrow> moods | None \<Rightarrow> []))
             else []);
          title = toLowerCase (t_title track);
          tags = foldl (\<lambda>tags (keyword, moods).
                          if includes_str title keyword then tags @ moods else tags)
                   fromGenre moodKeywords
      in dedupe tags)"

definition calculateTrackScore :: "Track \<Rightarrow> UserProfile \<Rightarrow> real \<times> string list" where
  "calculateTrackScore track profile =
     (let trackTags = extractTags track;
          (score0, matchedTags) =
            foldl (\<lambda>(score, matchedTags) tag.
                     case interestMap profile tag of
                       Some e \<Rightarrow>
                         (score + InterestEntry.score e,
                          if InterestEntry.score e > 0 then matchedTags @ [tag] else matchedTags)
                     | None \<Rightarrow> (score, matchedTags))
              (0, []) trackTags;
          score1 = (if listenHistory profile (t_id track) = None then score0 + 1 else score0);
          score2 = (if t_id track \<in> set (dislikedSongs profile) then score1 - 100 else score1);
          score3 = (if t_id track \<in> set (likedSongs profile) then score2 + 2 else score2)
      in (score3, matchedTags))"

text \<open>
  The discovery loop. \<open>rnd i\<close> is the value of the \<open>i\<close>-th call of \<open>Math.random()\<close>, a
  number in \<open>[0, 1)\<close>, so that \<open>randomIndex\<close> is a position of the pool. The pick is
  the pool's own object with \<open>isDiscovery\<close> set; no object of the pool is in the content
  slate, which the pool's second filter excludes by id.
\<close>

function discoveryLoop ::
  "(nat \<Rightarrow> real) \<Rightarrow> nat \<Rightarrow> int \<Rightarrow> ScoredTrack list \<Rightarrow> ScoredTrack list \<Rightarrow> ScoredTrack list" where
  "discoveryLoop rnd i discoveryCount discoveryPool discoveryRecommendations =
     (if int i < discoveryCount \<and> length discoveryPool > 0
      then (let randomIndex = nat \<lfloor>rnd i * real (length discoveryPool)\<rfloor>;
                discovery = discoveryPool ! randomIndex
            in discoveryLoop rnd (Suc i) discoveryCount
                 (take randomIndex discoveryPool @ drop (Suc randomIndex) discoveryPool)
                 (discoveryRecommendations @ [discovery\<lparr>st_isDiscovery := True\<rparr>]))
      else discoveryRecommendations)"
  by pat_completeness auto
termination
  by (relation "measure (\<lambda>(rnd, i, discoveryCount, pool, acc). nat (discoveryCount - int i))") auto

declare discoveryLoop.simps [simp del]

fun interleave ::
  "int \<Rightarrow> int \<Rightarrow> nat \<Rightarrow> ScoredTrack list \<Rightarrow> ScoredTrack list \<Rightarrow> ScoredTrack list" where
  "interleave contentCount discoveryCount i [] finalRecommendations = finalRecommendations"
| "interleave contentCount discoveryCount i (discovery # rest) finalRecommendations =
     (let insertPosition =
            min (3 + int i * \<lfloor>real_of_int contentCount / real_of_int discoveryCount\<rfloor>)
                (int (length finalRecommendations))
      in interleave contentCount discoveryCount (Suc i) rest
           (splice_insert insertPosition discovery finalRecommendations))"

text \<open>
  \<open>profile\<close> is the optional argument; when it is omitted the engine loads the profile
  from what the storage holds. The sort is stable and descending by score.
\<close>

definition getRecommendations ::
  "(nat \<Rightarrow> real) \<Rightarrow> clock \<Rightarrow> Stored \<Rightarrow> Track list \<Rightarrow> UserProfile option \<Rightarrow> int
     \<Rightarrow> ScoredTrack list" where
  "getRecommendations rnd now stored allTracks profile limit =
     (let userProfile = (case profile of Some p \<Rightarrow> p | None \<Rightarrow> loadUserProfile now stored);
          scoredTracks =
            sort_key (\<lambda>st. - st_score st)
              (map (\<lambda>track.
                      (let (score, matchedTags) = calculateTrackScore track userProfile
                       in \<lparr>st_track = track, st_score = score, st_matchedTags = matchedTags,
                           st_isDiscovery = False\<rparr>)) allTracks);
          discoveryCount = max 1 \<lfloor>real_of_int limit * SERENDIPITY_RATIO\<rfloor>;
          contentCount = limit - discoveryCount;
          contentRecommendations =
            slice_to contentCount (filter (\<lambda>st. st_score st > - 50) scoredTracks);
          discoveryPool =
            filter (\<lambda>st. \<not> list_ex (\<lambda>cr. t_id (st_track cr) = t_id (st_track st))
                                    contentRecommendations)
              (filter (\<lambda>st. \<not> (case profile of
                                   Some p \<Rightarrow> t_id (st_track st) \<in> set (dislikedSongs p)
                                 | None \<Rightarrow> False)) scoredTracks);
          discoveryRecommendations = discoveryLoop rnd 0 discoveryCount discoveryPool [];
          finalRecommendations =
            interleave contentCount discoveryCount 0 discoveryRecommendations
              contentRecommendations
      in slice_to limit finalRecommendations)"

section \<open>Audio cache service (services/userProfile.ts)\<close>

definition CACHE_THRESHOLD :: nat where "CACHE_THRESHOLD = 3"
definition MAX_CACHE_SIZE_MB :: int where "MAX_CACHE_SIZE_MB = 500"
definition MAX_CACHE_ITEMS :: nat where "MAX_CACHE_ITEMS = 50"

record Blob =
  b_size :: nat
  b_type :: string

record CachedAudio =
  ca_id :: string
  ca_blob :: Blob
  ca_mimeType :: string
  ca_size :: nat
  ca_cachedAt :: int
  ca_lastAccessed :: int
  ca_title :: string
  ca_artist :: string

record PlayCount =
  pc_id :: string
  pc_count :: nat
  pc_lastPlayed :: int
  pc_audioUrl :: string
  pc_title :: string
  pc_artist :: string

text \<open>
  The two object stores of the database. The audio store is enumerated by the service,
  so it is the list of its records in the order of their keys (\<open>keyPath: 'id'\<close>); the
  play-count store is only read and written by key. A request of the service either
  succeeds or fires \<open>onerror\<close>: the outcome is an argument (\<open>True\<close> for success) of the
  operation that issues the request. \<open>db = None\<close> is the database that failed to open.
\<close>

record Database =
  audioCache :: "CachedAudio list"
  playCounts :: "string \<rightharpoonup> PlayCount"

definition store_get :: "string \<Rightarrow> CachedAudio list \<Rightarrow> CachedAudio option" where
  "store_get key store = find (\<lambda>e. ca_id e = key) store"

definition store_delete :: "string \<Rightarrow> CachedAudio list \<Rightarrow> CachedAudio list" where
  "store_delete key store = filter (\<lambda>e. ca_id e \<noteq> key) store"

definition store_put :: "CachedAudio \<Rightarrow> CachedAudio list \<Rightarrow> CachedAudio list" where
  "store_put e store = insort_key ca_id e (store_delete (ca_id e) store)"

text \<open>The cursor over the index \<open>lastAccessed\<close>: ascending, equal values in key order.\<close>

definition index_lastAccessed :: "CachedAudio list \<Rightarrow> CachedAudio list" where
  "index_lastAccessed store = sort_key ca_lastAccessed store"

record PlayResult =
  shouldCache :: bool
  playCount :: nat

definition recordPlay ::
  "clock \<Rightarrow> bool \<Rightarrow> bool \<Rightarrow> Database option \<Rightarrow> string \<Rightarrow> string \<Rightarrow> string \<Rightarrow> string
     \<Rightarrow> PlayResult \<times> Database option" where
  "recordPlay now getOk putOk db trackId audioUrl title artist =
     (case db of
        None \<Rightarrow> (\<lparr>shouldCache = False, playCount = 0\<rparr>, db)
      | Some d \<Rightarrow>
          if \<not> getOk then (\<lparr>shouldCache = False, playCount = 0\<rparr>, db)
          else
            (let existing = playCounts d trackId;
                 newCount = (case existing of None \<Rightarrow> 0 | Some e \<Rightarrow> pc_count e) + 1;
                 playData = \<lparr>pc_id = trackId, pc_count = newCount, pc_lastPlayed = now 0,
                             pc_audioUrl = audioUrl, pc_title = title, pc_artist = artist\<rparr>
             in (\<lparr>shouldCache = (newCount \<ge> CACHE_THRESHOLD), playCount = newCount\<rparr>,
                 if putOk then Some (d\<lparr>playCounts := (playCounts d)(trackId \<mapsto> playData)\<rparr>)
                 else db)))"

definition isCached :: "bool \<Rightarrow> Database option \<Rightarrow> string \<Rightarrow> bool" where
  "isCached getOk db trackId =
     (case db of
        None \<Rightarrow> False
      | Some d \<Rightarrow> if getOk then store_get trackId (audioCache d) \<noteq> None else False)"


text \<open>
  The loop of \<open>ensureCacheSpace\<close> on \<open>(totalSize, items, store)\<close>; it returns the items
  left in the array and the store after the deletions.
\<close>

fun evictLoop ::
  "int \<Rightarrow> CachedAudio list \<Rightarrow> CachedAudio list \<Rightarrow> CachedAudio list \<times> CachedAudio list" where
  "evictLoop totalSize [] store = ([], store)"
| "evictLoop totalSize (oldest # items) store =
     (if totalSize > MAX_CACHE_SIZE_MB * 1024 * 1024 \<or> length (oldest # items) > MAX_CACHE_ITEMS
      then evictLoop (totalSize - int (ca_size oldest)) items (store_delete (ca_id oldest) store)
      else (oldest # items, store))"

definition ensureCacheSpace :: "bool \<Rightarrow> Database option \<Rightarrow> Database option" where
  "ensureCacheSpace cursorOk db =
     (case db of
        None \<Rightarrow> db
      | Some d \<Rightarrow>
          if \<not> cursorOk then db
          else
            (let items = index_lastAccessed (audioCache d);
                 totalSize = (\<Sum>item\<leftarrow>items. int (ca_size item));
                 sorted = sort_key ca_lastAccessed items
             in Some (d\<lparr>audioCache := snd (evictLoop totalSize sorted (audioCache d))\<rparr>)))"

text \<open>What \<open>fetch\<close> and \<open>response.blob()\<close> give: a rejection, a status that is not ok, or a blob.\<close>

datatype Fetched = FetchRejected | NotOk nat | Body Blob

definition cacheAudio ::
  "clock \<Rightarrow> bool \<Rightarrow> bool \<Rightarrow> Fetched \<Rightarrow> bool \<Rightarrow> Database option \<Rightarrow> string \<Rightarrow> string \<Rightarrow> string
     \<Rightarrow> string \<Rightarrow> bool \<times> Database option" where
  "cacheAudio now getOk cursorOk fetched putOk db trackId audioUrl title artist =
     (case db of
        None \<Rightarrow> (False, db)
      | Some d0 \<Rightarrow>
          if isCached getOk db trackId then (True, db)
          else
            (let db1 = ensureCacheSpace cursorOk db
             in case fetched of
                  FetchRejected \<Rightarrow> (False, db1)
                | NotOk status \<Rightarrow> (False, db1)
                | Body blob \<Rightarrow>
                    (let size = b_size blob
                     in if size > 50 * 1024 * 1024 then (False, db1)
                        else
                          (let cachedAudio =
                                 \<lparr>ca_id = trackId, ca_blob = blob,
                                  ca_mimeType = (if b_type blob \<noteq> [] then b_type blob
                                                 else ''audio/mpeg''),
                                  ca_size = size, ca_cachedAt = now 0, ca_lastAccessed = now 1,
                                  ca_title = title, ca_artist = artist\<rparr>
                           in if putOk
                              then (True, map_option
                                      (\<lambda>d. d\<lparr>audioCache := store_put cachedAudio (audioCache d)\<rparr>)
                                      db1)
                              else (False, db1)))))"


record StatsItem =
  s_title :: string
  s_artist :: string
  s_sizeMB :: real

record Stats =
  itemCount :: nat
  totalSizeMB :: real
  items :: "StatsItem list"


section \<open>Predicates and fixtures of the properties\<close>

text \<open>The liked and the disliked list are sets, and they are disjoint.\<close>

definition lists_inv :: "UserProfile \<Rightarrow> bool" where
  "lists_inv p = (distinct (likedSongs p) \<and> distinct (dislikedSongs p)
                  \<and> set (likedSongs p) \<inter> set (dislikedSongs p) = {})"

text \<open>A track with the fields the engine reads, and a call at a clock that stands still.\<close>

definition mkTrack :: "string \<Rightarrow> string \<Rightarrow> string \<Rightarrow> Track" where
  "mkTrack i title genre =
     \<lparr>t_id = i, t_title = title, t_artist = ''artist'', t_albumArt = [], t_genre = genre,
      t_duration = ''3:00'', t_audioUrl = ''https://example.org/a.mp3'', t_videoId = None,
      t_isPlaying = None, t_lyrics = None\<rparr>"

definition mkCall :: "int \<Rightarrow> string \<Rightarrow> Action \<Rightarrow> string list \<Rightarrow> Call" where
  "mkCall t songId action tags =
     \<lparr>c_now = (\<lambda>_. t), c_songId = songId, c_action = action, c_tags = tags,
      c_completionRate = None\<rparr>"

text \<open>Both budgets of the cache: at most 500 MB in total and at most 50 entries.\<close>

definition within_budgets :: "CachedAudio list \<Rightarrow> bool" where
  "within_budgets entries =
     ((\<Sum>e\<leftarrow>entries. int (ca_size e)) \<le> 500 * 1024 * 1024 \<and> length entries \<le> 50)"

text \<open>A run of calls of \<open>recordPlay\<close> whose requests all succeed.\<close>

record PlayCall =
  pl_now :: clock
  pl_trackId :: string
  pl_audioUrl :: string
  pl_title :: string
  pl_artist :: string

definition applyPlay :: "Database option \<Rightarrow> PlayCall \<Rightarrow> Database option" where
  "applyPlay db c =
     snd (recordPlay (pl_now c) True True db (pl_trackId c) (pl_audioUrl c) (pl_title c)
            (pl_artist c))"

definition runPlays :: "Database option \<Rightarrow> PlayCall list \<Rightarrow> Database option" where
  "runPlays db cs = foldl applyPlay db cs"

definition mkPlay :: "string \<Rightarrow> PlayCall" where
  "mkPlay trackId = \<lparr>pl_now = (\<lambda>_. 0), pl_trackId = trackId,
     pl_audioUrl = ''https://example.org/a.mp3'', pl_title = ''Song'', pl_artist = ''artist''\<rparr>"

text \<open>A cache entry of a given key, size and time of last access.\<close>

definition mkEntry :: "string \<Rightarrow> nat \<Rightarrow> int \<Rightarrow> CachedAudio" where
  "mkEntry key sz t =
     \<lparr>ca_id = key, ca_blob = \<lparr>b_size = sz, b_type = ''audio/mpeg''\<rparr>, ca_mimeType = ''audio/mpeg'',
      ca_size = sz, ca_cachedAt = t, ca_lastAccessed = t, ca_title = ''Song'',
      ca_artist = ''artist''\<rparr>"

text \<open>
  A cache that admissions can leave behind: eleven entries of 50 MB each, 550 MB in
  total, with keys \<open>a\<close>, \<open>aa\<close>, \<open>\<dots>\<close> and a time of last access that does not follow the keys.
\<close>

definition fullCache :: Database where
  "fullCache =
     \<lparr>audioCache = map (\<lambda>(key, t). mkEntry key (50 * 1024 * 1024) t)
        [(''a'', 3), (''aa'', 10), (''aaa'', 6), (''aaaa'', 2), (''aaaaa'', 9), (''aaaaaa'', 5),
         (''aaaaaaa'', 1), (''aaaaaaaa'', 8), (''aaaaaaaaa'', 4), (''aaaaaaaaaa'', 0),
         (''aaaaaaaaaaa'', 7)],
      playCounts = Map.empty\<rparr>"

text \<open>
  A listener who has liked five Synthwave tracks and then disliked a sixth, \<open>x\<close>, each
  recorded with the tags the engine extracts from the track; and the six tracks.
\<close>

definition synthTracks :: "Track list" where
  "synthTracks = map (\<lambda>i. mkTrack i ''Track'' ''Synthwave'') [''s1'', ''s2'', ''s3'', ''s4'', ''s5'', ''x'']"

definition synthFan :: UserProfile where
  "synthFan = runCalls (freshProfile (\<lambda>_. 0))
     (map (\<lambda>i. mkCall 1 i Like (extractTags (mkTrack i ''Track'' ''Synthwave'')))
        [''s1'', ''s2'', ''s3'', ''s4'', ''s5'']
      @ [mkCall 2 ''x'' Dislike (extractTags (mkTrack ''x'' ''Track'' ''Synthwave''))])"

text \<open>A listener whose only action is a dislike of \<open>x\<close>.\<close>

definition popHater :: UserProfile where
  "popHater = runCalls (freshProfile (\<lambda>_. 0)) [mkCall 2 ''x'' Dislike [''Pop'']]"

text \<open>Twenty tracks with twenty ids.\<close>

definition catalog20 :: "Track list" where
  "catalog20 = map (\<lambda>i. mkTrack i ''Song'' ''Pop'')
     [''t01'', ''t02'', ''t03'', ''t04'', ''t05'', ''t06'', ''t07'', ''t08'', ''t09'', ''t10'',
      ''t11'', ''t12'', ''t13'', ''t14'', ''t15'', ''t16'', ''t17'', ''t18'', ''t19'', ''t20'']"


section \<open>Interaction recorder\<close>

subsection \<open>What each stage of recordInteraction leaves alone\<close>

lemma saveUserProfile_fields:
  assumes "saveUserProfile now n p = (q, m)"
  shows "interactions q = interactions p" "likedSongs q = likedSongs p"
    "dislikedSongs q = dislikedSongs p" "savedSongs q = savedSongs p"
    "listenHistory q = listenHistory p" "interestMap q = interestMap p"
  using assms by (auto simp: saveUserProfile_def)

lemma updateInterestScore_fields:
  assumes "updateInterestScore now n p tags a = (q, m)"
  shows "interactions q = interactions p" "likedSongs q = likedSongs p"
    "dislikedSongs q = dislikedSongs p" "savedSongs q = savedSongs p"
    "listenHistory q = listenHistory p"
  using assms by (auto simp: updateInterestScore_def saveUserProfile_def Let_def)

lemma updateLists_fields:
  assumes "updateLists now n p s a tags r = (q, m)"
  shows "interactions q = interactions p" "listenHistory q = listenHistory p"
  using assms
  by (cases a; auto simp: updateLists_def split: if_splits dest: updateInterestScore_fields)+

lemma updateLists_liked:
  assumes "updateLists now n p s a tags r = (q, m)"
  shows "likedSongs q =
     (case a of
        Like \<Rightarrow> if s \<in> set (likedSongs p) then likedSongs p else likedSongs p @ [s]
      | Dislike \<Rightarrow> if s \<in> set (dislikedSongs p) then likedSongs p
                   else filter (\<lambda>i. i \<noteq> s) (likedSongs p)
      | _ \<Rightarrow> likedSongs p)"
  using assms
  by (cases a; auto simp: updateLists_def split: if_splits dest: updateInterestScore_fields)

lemma updateLists_disliked:
  assumes "updateLists now n p s a tags r = (q, m)"
  shows "dislikedSongs q =
     (case a of
        Dislike \<Rightarrow> if s \<in> set (dislikedSongs p) then dislikedSongs p else dislikedSongs p @ [s]
      | Like \<Rightarrow> if s \<in> set (likedSongs p) then dislikedSongs p
                   else filter (\<lambda>i. i \<noteq> s) (dislikedSongs p)
      | _ \<Rightarrow> dislikedSongs p)"
  using assms
  by (cases a; auto simp: updateLists_def split: if_splits dest: updateInterestScore_fields)

lemma ensureHistory_fields:
  assumes "ensureHistory now n p s = (q, m)"
  shows "interactions q = interactions p" "likedSongs q = likedSongs p"
    "dislikedSongs q = dislikedSongs p" "interestMap q = interestMap p"
  using assms by (auto simp: ensureHistory_def split: option.splits)

lemma countPlay_fields:
  assumes "countPlay now n p s tags = (q, m)"
  shows "interactions q = interactions p" "likedSongs q = likedSongs p"
    "dislikedSongs q = dislikedSongs p"
  using assms
  by (auto simp: countPlay_def Let_def split: option.splits prod.splits if_splits
      dest: updateInterestScore_fields)

text \<open>The stages of one call, named.\<close>

lemma recordInteraction_stages:
  obtains p1 p2 n2 p3 n3 p4 n4 where
    "interactions p1 =
        (if length (interactions p) \<ge> 500
         then slice_from (- 500) (interactions p @ [\<lparr>si_songId = s, si_timestamp = now 0,
                si_action = a, si_completionRate = r, si_tags = tags\<rparr>])
         else interactions p @ [\<lparr>si_songId = s, si_timestamp = now 0, si_action = a,
                si_completionRate = r, si_tags = tags\<rparr>])"
    "likedSongs p1 = likedSongs p" "dislikedSongs p1 = dislikedSongs p"
    "listenHistory p1 = listenHistory p" "interestMap p1 = interestMap p"
    "updateLists now 1 p1 s a tags r = (p2, n2)"
    "ensureHistory now n2 p2 s = (p3, n3)"
    "(if a = Play \<or> a = Complete then countPlay now n3 p3 s tags else (p3, n3)) = (p4, n4)"
    "recordInteraction now p s a tags r = fst (saveUserProfile now n4 p4)"
proof -
  define p1 where "p1 = p\<lparr>interactions :=
        (if length (interactions p @ [\<lparr>si_songId = s, si_timestamp = now 0, si_action = a,
                si_completionRate = r, si_tags = tags\<rparr>]) > 500
         then slice_from (- 500) (interactions p @ [\<lparr>si_songId = s, si_timestamp = now 0,
                si_action = a, si_completionRate = r, si_tags = tags\<rparr>])
         else interactions p @ [\<lparr>si_songId = s, si_timestamp = now 0, si_action = a,
                si_completionRate = r, si_tags = tags\<rparr>])\<rparr>"
  obtain p2 n2 where u: "updateLists now 1 p1 s a tags r = (p2, n2)"
    by (cases "updateLists now 1 p1 s a tags r")
  obtain p3 n3 where h: "ensureHistory now n2 p2 s = (p3, n3)"
    by (cases "ensureHistory now n2 p2 s")
  obtain p4 n4 where c:
    "(if a = Play \<or> a = Complete then countPlay now n3 p3 s tags else (p3, n3)) = (p4, n4)"
    by (cases "if a = Play \<or> a = Complete then countPlay now n3 p3 s tags else (p3, n3)")
  have res: "recordInteraction now p s a tags r = fst (saveUserProfile now n4 p4)"
    using u h c unfolding recordInteraction_def Let_def p1_def by simp
  show ?thesis
    by (rule that [OF _ _ _ _ _ u h c res]) (simp_all add: p1_def)
qed

lemma recordInteraction_interactions:
  "interactions (recordInteraction now p s a tags r) =
     (if length (interactions p) \<ge> 500
      then slice_from (- 500) (interactions p @ [\<lparr>si_songId = s, si_timestamp = now 0,
                si_action = a, si_completionRate = r, si_tags = tags\<rparr>])
      else interactions p @ [\<lparr>si_songId = s, si_timestamp = now 0, si_action = a,
                si_completionRate = r, si_tags = tags\<rparr>])"
proof -
  obtain p1 p2 n2 p3 n3 p4 n4 where
    p1: "interactions p1 =
        (if length (interactions p) \<ge> 500
         then slice_from (- 500) (interactions p @ [\<lparr>si_songId = s, si_timestamp = now 0,
                si_action = a, si_completionRate = r, si_tags = tags\<rparr>])
         else interactions p @ [\<lparr>si_songId = s, si_timestamp = now 0, si_action = a,
                si_completionRate = r, si_tags = tags\<rparr>])"
    and u: "updateLists now 1 p1 s a tags r = (p2, n2)"
    and h: "ensureHistory now n2 p2 s = (p3, n3)"
    and c: "(if a = Play \<or> a = Complete then countPlay now n3 p3 s tags else (p3, n3)) = (p4, n4)"
    and res: "recordInteraction now p s a tags r = fst (saveUserProfile now n4 p4)"
    by (rule recordInteraction_stages)
  have "interactions p4 = interactions p3"
    using c by (auto split: if_splits dest: countPlay_fields(1))
  also have "\<dots> = interactions p2" using h by (rule ensureHistory_fields)
  also have "\<dots> = interactions p1" using u by (rule updateLists_fields)
  finally show ?thesis by (simp add: res saveUserProfile_def p1)
qed

lemma recordInteraction_liked:
  "likedSongs (recordInteraction now p s a tags r) =
     (case a of
        Like \<Rightarrow> if s \<in> set (likedSongs p) then likedSongs p else likedSongs p @ [s]
      | Dislike \<Rightarrow> if s \<in> set (dislikedSongs p) then likedSongs p
                   else filter (\<lambda>i. i \<noteq> s) (likedSongs p)
      | _ \<Rightarrow> likedSongs p)"
proof -
  obtain p1 p2 n2 p3 n3 p4 n4 where
    p1: "likedSongs p1 = likedSongs p" "dislikedSongs p1 = dislikedSongs p"
    and u: "updateLists now 1 p1 s a tags r = (p2, n2)"
    and h: "ensureHistory now n2 p2 s = (p3, n3)"
    and c: "(if a = Play \<or> a = Complete then countPlay now n3 p3 s tags else (p3, n3)) = (p4, n4)"
    and res: "recordInteraction now p s a tags r = fst (saveUserProfile now n4 p4)"
    by (rule recordInteraction_stages)
  have "likedSongs p4 = likedSongs p3"
    using c by (auto split: if_splits dest: countPlay_fields(2))
  also have "\<dots> = likedSongs p2" using h by (rule ensureHistory_fields)
  finally show ?thesis using updateLists_liked [OF u] unfolding p1 by (simp add: res saveUserProfile_def)
qed

lemma recordInteraction_disliked:
  "dislikedSongs (recordInteraction now p s a tags r) =
     (case a of
        Dislike \<Rightarrow> if s \<in> set (dislikedSongs p) then dislikedSongs p else dislikedSongs p @ [s]
      | Like \<Rightarrow> if s \<in> set (likedSongs p) then dislikedSongs p
                   else filter (\<lambda>i. i \<noteq> s) (dislikedSongs p)
      | _ \<Rightarrow> dislikedSongs p)"
proof -
  obtain p1 p2 n2 p3 n3 p4 n4 where
    p1: "likedSongs p1 = likedSongs p" "dislikedSongs p1 = dislikedSongs p"
    and u: "updateLists now 1 p1 s a tags r = (p2, n2)"
    and h: "ensureHistory now n2 p2 s = (p3, n3)"
    and c: "(if a = Play \<or> a = Complete then countPlay now n3 p3 s tags else (p3, n3)) = (p4, n4)"
    and res: "recordInteraction now p s a tags r = fst (saveUserProfile now n4 p4)"
    by (rule recordInteraction_stages)
  have "dislikedSongs p4 = dislikedSongs p3"
    using c by (auto split: if_splits dest: countPlay_fields(3))
  also have "\<dots> = dislikedSongs p2" using h by (rule ensureHistory_fields)
  finally show ?thesis using updateLists_disliked [OF u] unfolding p1 by (simp add: res saveUserProfile_def)
qed

subsection \<open>Fresh profile\<close>

lemma freshProfile_fields:
  "interactions (freshProfile now) = []" "likedSongs (freshProfile now) = []"
  "dislikedSongs (freshProfile now) = []" "listenHistory (freshProfile now) = Map.empty"
  by (simp_all add: freshProfile_def loadUserProfile_def newProfile_def saveUserProfile_def
      Let_def split: prod.splits)

subsection \<open>The log\<close>

lemma runCalls_snoc: "runCalls p (cs @ [c]) = applyCall (runCalls p cs) c"
  by (simp add: runCalls_def)

lemma applyCall_interactions:
  "interactions (applyCall p c) =
     (if length (interactions p) \<ge> 500
      then slice_from (- 500) (interactions p @ [eventOf c])
      else interactions p @ [eventOf c])"
  by (simp add: applyCall_def eventOf_def recordInteraction_interactions)

lemma runCalls_interactions:
  assumes "interactions p = []"
  shows "interactions (runCalls p cs) = drop (length cs - 500) (map eventOf cs)"
proof (induction cs rule: rev_induct)
  case Nil
  show ?case using assms by (simp add: runCalls_def)
next
  case (snoc c cs)
  show ?case
  proof (cases "length cs \<ge> 500")
    case True
    then show ?thesis
      using snoc by (simp add: runCalls_snoc applyCall_interactions slice_from_def Suc_diff_le)
  next
    case False
    then show ?thesis
      using snoc by (simp add: runCalls_snoc applyCall_interactions)
  qed
qed

text \<open>
  C7. From a fresh profile, the log never holds more than 500 events, and it holds the
  last 500 of the recorded events (all of them when fewer were recorded), in the order
  of recording. After 501 calls it holds 500 events: all but the first one recorded.
\<close>

theorem interaction_log_bound:
  "length (interactions (runCalls (freshProfile now0) cs)) \<le> 500
   \<and> interactions (runCalls (freshProfile now0) cs) = drop (length cs - 500) (map eventOf cs)
   \<and> (length cs = 501 \<longrightarrow>
        length (interactions (runCalls (freshProfile now0) cs)) = 500
        \<and> interactions (runCalls (freshProfile now0) cs) = tl (map eventOf cs))"
proof -
  have eq: "interactions (runCalls (freshProfile now0) cs) = drop (length cs - 500) (map eventOf cs)"
    by (rule runCalls_interactions) (rule freshProfile_fields)
  show ?thesis unfolding eq by (auto simp: drop_Suc)
qed

subsection \<open>Liked and disliked\<close>

lemma recordInteraction_inv:
  assumes "lists_inv p"
  shows "lists_inv (recordInteraction now p s a tags r)"
  using assms unfolding lists_inv_def recordInteraction_liked recordInteraction_disliked
  by (cases a) auto

lemma runCalls_inv:
  assumes "lists_inv p"
  shows "lists_inv (runCalls p cs)"
  by (induction cs rule: rev_induct)
     (simp_all add: runCalls_def assms applyCall_def recordInteraction_inv)

text \<open>
  C4. In every profile reached from a fresh one by calls of recordInteraction, the liked
  and the disliked list have no duplicates and no common element; a like of \<open>x\<close> leaves
  \<open>x\<close> liked and not disliked, and a dislike of \<open>x\<close> leaves it disliked and not liked.
\<close>

theorem liked_disliked_exclusive:
  "distinct (likedSongs (runCalls (freshProfile now0) cs))
   \<and> distinct (dislikedSongs (runCalls (freshProfile now0) cs))
   \<and> set (likedSongs (runCalls (freshProfile now0) cs))
       \<inter> set (dislikedSongs (runCalls (freshProfile now0) cs)) = {}
   \<and> x \<in> set (likedSongs (recordInteraction now (runCalls (freshProfile now0) cs) x Like tags r))
   \<and> x \<notin> set (dislikedSongs (recordInteraction now (runCalls (freshProfile now0) cs) x Like tags r))
   \<and> x \<in> set (dislikedSongs (recordInteraction now (runCalls (freshProfile now0) cs) x Dislike tags r))
   \<and> x \<notin> set (likedSongs (recordInteraction now (runCalls (freshProfile now0) cs) x Dislike tags r))"
proof -
  have "lists_inv (freshProfile now0)"
    by (simp add: lists_inv_def freshProfile_fields)
  then have inv: "lists_inv (runCalls (freshProfile now0) cs)"
    by (rule runCalls_inv)
  then show ?thesis
    unfolding recordInteraction_liked recordInteraction_disliked lists_inv_def by auto
qed

theorem interaction_log_bound_witness:
  "length (replicate 501 (mkCall 0 ''s1'' Play [''Pop''])) = 501
   \<and> length (interactions (runCalls (freshProfile (\<lambda>_. 0))
         (replicate 501 (mkCall 0 ''s1'' Play [''Pop''])))) = 500
   \<and> interactions (runCalls (freshProfile (\<lambda>_. 0)) (replicate 501 (mkCall 0 ''s1'' Play [''Pop''])))
       = tl (map eventOf (replicate 501 (mkCall 0 ''s1'' Play [''Pop''])))"
  using interaction_log_bound [of "\<lambda>_. 0" "replicate 501 (mkCall 0 ''s1'' Play [''Pop''])"]
  by simp

theorem liked_disliked_exclusive_witness:
  "dislikedSongs (runCalls (freshProfile (\<lambda>_. 0)) [mkCall 1 ''x'' Like [''Pop'']]) = []
   \<and> ''x'' \<in> set (dislikedSongs (recordInteraction (\<lambda>_. 2)
          (runCalls (freshProfile (\<lambda>_. 0)) [mkCall 1 ''x'' Like [''Pop'']]) ''x'' Dislike [''Pop''] None))
   \<and> ''x'' \<notin> set (likedSongs (recordInteraction (\<lambda>_. 2)
          (runCalls (freshProfile (\<lambda>_. 0)) [mkCall 1 ''x'' Like [''Pop'']]) ''x'' Dislike [''Pop''] None))"
proof -
  have "dislikedSongs (runCalls (freshProfile (\<lambda>_. 0)) [mkCall 1 ''x'' Like [''Pop'']]) = []"
    by code_simp
  then show ?thesis
    using liked_disliked_exclusive [of "\<lambda>_. 0" "[mkCall 1 ''x'' Like [''Pop'']]" "''x''"
        "\<lambda>_. 2" "[''Pop'']" None]
    by simp
qed

subsection \<open>Listen history\<close>

lemma ensureHistory_creates:
  assumes "ensureHistory now n p s = (q, m)"
  shows "listenHistory q s \<noteq> None"
  using assms by (auto simp: ensureHistory_def split: option.splits)

lemma countPlay_keeps:
  assumes "countPlay now n p s tags = (q, m)" and "listenHistory p s \<noteq> None"
  shows "listenHistory q s \<noteq> None"
  using assms
  by (auto simp: countPlay_def Let_def split: option.splits prod.splits if_splits)

lemma recordInteraction_creates_history:
  "listenHistory (recordInteraction now p s a tags r) s \<noteq> None"
proof -
  obtain p1 p2 n2 p3 n3 p4 n4 where
    h: "ensureHistory now n2 p2 s = (p3, n3)"
    and c: "(if a = Play \<or> a = Complete then countPlay now n3 p3 s tags else (p3, n3)) = (p4, n4)"
    and res: "recordInteraction now p s a tags r = fst (saveUserProfile now n4 p4)"
    by (rule recordInteraction_stages)
  have "listenHistory p3 s \<noteq> None" using h by (rule ensureHistory_creates)
  then have "listenHistory p4 s \<noteq> None"
    using c by (auto split: if_splits dest: countPlay_keeps)
  then show ?thesis by (simp add: res saveUserProfile_def)
qed

text \<open>
  C9. The code at the failing input: one like of \<open>x\<close> on a fresh profile, no play. The
  profile then has a listen-history entry for \<open>x\<close> with play count 0, and the score of
  \<open>x\<close> is 7: the interest 5 of its tag and the liked bonus 2, without the novelty bonus
  that the fresh profile still gave it.
\<close>

theorem like_creates_listen_history:
  "listenHistory (runCalls (freshProfile (\<lambda>_. 0)) [mkCall 1 ''x'' Like [''Pop'']]) ''x''
     = Some \<lparr>lh_songId = ''x'', lh_playCount = 0, lh_lastPlayed = 1, lh_totalTimeListened = 0\<rparr>
   \<and> calculateTrackScore (mkTrack ''x'' ''Song'' ''Pop'')
        (runCalls (freshProfile (\<lambda>_. 0)) [mkCall 1 ''x'' Like [''Pop'']]) = (7, [''Pop''])
   \<and> calculateTrackScore (mkTrack ''x'' ''Song'' ''Pop'') (freshProfile (\<lambda>_. 0)) = (1, [])"
  by code_simp

section \<open>Interest model\<close>

lemma decayEntry_eq:
  "decayEntry now e =
     (if now - lastUpdated e \<ge> DECAY_INTERVAL_MS
      then e\<lparr>score := score e * (9 / 10) ^ nat ((now - lastUpdated e) div DECAY_INTERVAL_MS),
             lastUpdated := now\<rparr>
      else e)"
proof -
  have pos: "0 < DECAY_INTERVAL_MS" by (simp add: DECAY_INTERVAL_MS_def)
  have fl: "\<lfloor>real_of_int (now - lastUpdated e) / real_of_int DECAY_INTERVAL_MS\<rfloor>
            = (now - lastUpdated e) div DECAY_INTERVAL_MS"
    by (rule floor_divide_of_int_eq)
  have "0 < (now - lastUpdated e) div DECAY_INTERVAL_MS \<longleftrightarrow> DECAY_INTERVAL_MS \<le> now - lastUpdated e"
    using pos by (simp add: pos_imp_zdiv_pos_iff)
  then show ?thesis
    unfolding decayEntry_def Let_def fl by (simp add: DECAY_RATE_def)
qed

text \<open>
  C3. With \<open>elapsed = now - lastUpdated\<close> and a period of 7 days: when at least one full
  period has elapsed, the score is multiplied by \<open>0.9 ^ floor (elapsed / period)\<close> and
  \<open>lastUpdated\<close> becomes \<open>now\<close>; otherwise the entry is unchanged. Exactly 14 days give
  \<open>S * 0.9\<^sup>2\<close>, exactly 6 days leave \<open>S\<close>. Loading a stored profile applies this to
  every entry of its interest map, at the time of the load.
\<close>

theorem decay_at_load:
  "(DECAY_INTERVAL_MS \<le> now - lastUpdated e \<longrightarrow>
      score (decayEntry now e)
        = score e * (9 / 10) ^ nat ((now - lastUpdated e) div DECAY_INTERVAL_MS)
      \<and> lastUpdated (decayEntry now e) = now)
   \<and> (now - lastUpdated e < DECAY_INTERVAL_MS \<longrightarrow> decayEntry now e = e)
   \<and> (now - lastUpdated e = 14 * 24 * 60 * 60 * 1000 \<longrightarrow>
        score (decayEntry now e) = score e * (9 / 10)\<^sup>2 \<and> lastUpdated (decayEntry now e) = now)
   \<and> (now - lastUpdated e = 6 * 24 * 60 * 60 * 1000 \<longrightarrow> decayEntry now e = e)
   \<and> interestMap (loadUserProfile clk (Parsed p)) tag
        = map_option (decayEntry (clk 0)) (interestMap p tag)"
proof -
  have "interestMap (loadUserProfile clk (Parsed p)) tag
          = map_option (decayEntry (clk 0)) (interestMap p tag)"
    by (simp add: loadUserProfile_def applyTimeDecay_def)
  then show ?thesis
    unfolding decayEntry_eq by (simp add: DECAY_INTERVAL_MS_def)
qed

theorem decay_at_load_witness:
  "(DECAY_INTERVAL_MS \<le> 1209600000 - lastUpdated \<lparr>score = 10, lastUpdated = 0\<rparr>
    \<and> 1209600000 - lastUpdated \<lparr>score = 10, lastUpdated = 0\<rparr> = 14 * 24 * 60 * 60 * 1000
    \<and> decayEntry 1209600000 \<lparr>score = 10, lastUpdated = 0\<rparr>
        = \<lparr>score = 81 / 10, lastUpdated = 1209600000\<rparr>)
   \<and> (518400000 - lastUpdated \<lparr>score = 10, lastUpdated = 0\<rparr> < DECAY_INTERVAL_MS
    \<and> 518400000 - lastUpdated \<lparr>score = 10, lastUpdated = 0\<rparr> = 6 * 24 * 60 * 60 * 1000
    \<and> decayEntry 518400000 \<lparr>score = 10, lastUpdated = 0\<rparr> = \<lparr>score = 10, lastUpdated = 0\<rparr>)"
  using decay_at_load [of 1209600000 "\<lparr>score = 10, lastUpdated = 0\<rparr>" "\<lambda>_. 0" "freshProfile (\<lambda>_. 0)" "''Pop''"]
    decay_at_load [of 518400000 "\<lparr>score = 10, lastUpdated = 0\<rparr>" "\<lambda>_. 0" "freshProfile (\<lambda>_. 0)" "''Pop''"]
  by (simp add: DECAY_INTERVAL_MS_def power2_eq_square)

section \<open>Audio cache\<close>

subsection \<open>Play counts\<close>

lemma recordPlay_ok:
  "recordPlay now True True (Some d) i url ti ar =
     (\<lparr>shouldCache = (3 \<le> (case playCounts d i of None \<Rightarrow> 0 | Some e \<Rightarrow> pc_count e) + 1),
       playCount = (case playCounts d i of None \<Rightarrow> 0 | Some e \<Rightarrow> pc_count e) + 1\<rparr>,
      Some (d\<lparr>playCounts := (playCounts d)(i \<mapsto>
         \<lparr>pc_id = i, pc_count = (case playCounts d i of None \<Rightarrow> 0 | Some e \<Rightarrow> pc_count e) + 1,
          pc_lastPlayed = now 0, pc_audioUrl = url, pc_title = ti, pc_artist = ar\<rparr>)\<rparr>))"
  by (simp add: recordPlay_def CACHE_THRESHOLD_def Let_def)

text \<open>The stored count of an id, 0 without a record.\<close>

lemma runPlays_count:
  "\<exists>d'. runPlays (Some d) cs = Some d'
        \<and> (\<forall>i. (case playCounts d' i of None \<Rightarrow> 0 | Some e \<Rightarrow> pc_count e)
                 = (case playCounts d i of None \<Rightarrow> 0 | Some e \<Rightarrow> pc_count e)
                   + count_list (map pl_trackId cs) i)"
proof (induction cs rule: rev_induct)
  case Nil
  show ?case by (simp add: runPlays_def)
next
  case (snoc c cs)
  then obtain d' where d': "runPlays (Some d) cs = Some d'"
    and cnt: "\<And>i. (case playCounts d' i of None \<Rightarrow> 0 | Some e \<Rightarrow> pc_count e)
                 = (case playCounts d i of None \<Rightarrow> 0 | Some e \<Rightarrow> pc_count e)
                   + count_list (map pl_trackId cs) i"
    by blast
  have "runPlays (Some d) (cs @ [c]) = applyPlay (Some d') c"
    by (simp add: runPlays_def d' [unfolded runPlays_def])
  then show ?case
    by (simp add: applyPlay_def recordPlay_ok cnt)
qed

text \<open>
  C6. With the database open and the requests succeeding, recordPlay returns one plus
  the stored count (0 without a record) as playCount, and shouldCache exactly when that
  is at least 3. In a run of plays that starts without a record for the id, the play
  that follows \<open>k\<close> earlier plays of the id returns playCount \<open>k + 1\<close>, and shouldCache
  exactly from the third play on.
\<close>

theorem recordPlay_threshold:
  "playCount (fst (recordPlay now True putOk (Some d) i url ti ar))
     = (case playCounts d i of None \<Rightarrow> 0 | Some e \<Rightarrow> pc_count e) + 1
   \<and> shouldCache (fst (recordPlay now True putOk (Some d) i url ti ar))
     = (3 \<le> playCount (fst (recordPlay now True putOk (Some d) i url ti ar)))
   \<and> (playCounts d i = None \<longrightarrow>
        playCount (fst (recordPlay now True True (runPlays (Some d) cs) i url ti ar))
          = count_list (map pl_trackId cs) i + 1
        \<and> shouldCache (fst (recordPlay now True True (runPlays (Some d) cs) i url ti ar))
          = (2 \<le> count_list (map pl_trackId cs) i))"
proof -
  obtain d' where d': "runPlays (Some d) cs = Some d'"
    and cnt: "\<And>i. (case playCounts d' i of None \<Rightarrow> 0 | Some e \<Rightarrow> pc_count e)
                 = (case playCounts d i of None \<Rightarrow> 0 | Some e \<Rightarrow> pc_count e)
                   + count_list (map pl_trackId cs) i"
    using runPlays_count [of d cs] by blast
  have one: "playCount (fst (recordPlay now True putOk (Some d) i url ti ar))
     = (case playCounts d i of None \<Rightarrow> 0 | Some e \<Rightarrow> pc_count e) + 1
   \<and> shouldCache (fst (recordPlay now True putOk (Some d) i url ti ar))
     = (3 \<le> playCount (fst (recordPlay now True putOk (Some d) i url ti ar)))"
    by (simp add: recordPlay_def CACHE_THRESHOLD_def Let_def)
  have run: "playCounts d i = None \<longrightarrow>
        playCount (fst (recordPlay now True True (runPlays (Some d) cs) i url ti ar))
          = count_list (map pl_trackId cs) i + 1
        \<and> shouldCache (fst (recordPlay now True True (runPlays (Some d) cs) i url ti ar))
          = (2 \<le> count_list (map pl_trackId cs) i)"
    unfolding d' recordPlay_ok cnt by auto
  from one run show ?thesis by blast
qed

theorem recordPlay_threshold_witness:
  "playCounts \<lparr>audioCache = [], playCounts = Map.empty\<rparr> ''a'' = None
   \<and> map (\<lambda>cs. fst (recordPlay (\<lambda>_. 0) True True
              (runPlays (Some \<lparr>audioCache = [], playCounts = Map.empty\<rparr>) cs) ''a'' ''u'' ''t'' ''r''))
       [[], [mkPlay ''a''], [mkPlay ''a'', mkPlay ''b'', mkPlay ''a''],
        [mkPlay ''a'', mkPlay ''a'', mkPlay ''a'']]
     = [\<lparr>shouldCache = False, playCount = 1\<rparr>, \<lparr>shouldCache = False, playCount = 2\<rparr>,
        \<lparr>shouldCache = True, playCount = 3\<rparr>, \<lparr>shouldCache = True, playCount = 4\<rparr>]"
  using recordPlay_threshold [of "\<lambda>_. 0" True "\<lparr>audioCache = [], playCounts = Map.empty\<rparr>" "''a''"
      "''u''" "''t''" "''r''" "[]"]
    recordPlay_threshold [of "\<lambda>_. 0" True "\<lparr>audioCache = [], playCounts = Map.empty\<rparr>" "''a''"
      "''u''" "''t''" "''r''" "[mkPlay ''a'']"]
    recordPlay_threshold [of "\<lambda>_. 0" True "\<lparr>audioCache = [], playCounts = Map.empty\<rparr>" "''a''"
      "''u''" "''t''" "''r''" "[mkPlay ''a'', mkPlay ''b'', mkPlay ''a'']"]
    recordPlay_threshold [of "\<lambda>_. 0" True "\<lparr>audioCache = [], playCounts = Map.empty\<rparr>" "''a''"
      "''u''" "''t''" "''r''" "[mkPlay ''a'', mkPlay ''a'', mkPlay ''a'']"]
  by (simp add: mkPlay_def PlayResult.equality)

subsection \<open>Failing database\<close>




subsection \<open>Eviction\<close>

lemma sum_list_insort_key:
  "(\<Sum>e\<leftarrow>insort_key g x xs. (f e :: int)) = f x + (\<Sum>e\<leftarrow>xs. f e)"
  by (induction xs) auto

lemma sum_list_sort_key:
  "(\<Sum>e\<leftarrow>sort_key g xs. (f e :: int)) = (\<Sum>e\<leftarrow>xs. f e)"
  by (induction xs) (auto simp: sum_list_insort_key)

lemma within_budgets_sort_key:
  "within_budgets (sort_key g xs) = within_budgets xs"
  by (simp add: within_budgets_def sum_list_sort_key)

text \<open>
  The loop removes a prefix of its array: the shortest one whose removal leaves the rest
  within both budgets. The store loses the records with the keys of that prefix.
\<close>

lemma evictLoop_prefix:
  "\<exists>k\<le>length its.
      evictLoop (\<Sum>e\<leftarrow>its. int (ca_size e)) its store
        = (drop k its, filter (\<lambda>e. ca_id e \<notin> ca_id ` set (take k its)) store)
      \<and> within_budgets (drop k its)
      \<and> (\<forall>j<k. \<not> within_budgets (drop j its))"
proof (induction its arbitrary: store)
  case Nil
  show ?case by (simp add: within_budgets_def)
next
  case (Cons x xs)
  show ?case
  proof (cases "within_budgets (x # xs)")
    case True
    then have "evictLoop (\<Sum>e\<leftarrow>x # xs. int (ca_size e)) (x # xs) store = (x # xs, store)"
      by (simp add: within_budgets_def MAX_CACHE_SIZE_MB_def MAX_CACHE_ITEMS_def)
    with True show ?thesis by (intro exI [of _ 0]) simp
  next
    case False
    then have step: "evictLoop (\<Sum>e\<leftarrow>x # xs. int (ca_size e)) (x # xs) store
        = evictLoop (\<Sum>e\<leftarrow>xs. int (ca_size e)) xs (store_delete (ca_id x) store)"
      by (auto simp: within_budgets_def MAX_CACHE_SIZE_MB_def MAX_CACHE_ITEMS_def)
    from Cons.IH [of "store_delete (ca_id x) store"] obtain k where k: "k \<le> length xs"
      "evictLoop (\<Sum>e\<leftarrow>xs. int (ca_size e)) xs (store_delete (ca_id x) store)
        = (drop k xs, filter (\<lambda>e. ca_id e \<notin> ca_id ` set (take k xs))
                        (store_delete (ca_id x) store))"
      "within_budgets (drop k xs)" "\<forall>j<k. \<not> within_budgets (drop j xs)"
      by blast
    have flt: "filter (\<lambda>e. ca_id e \<notin> ca_id ` set (take k xs)) (store_delete (ca_id x) store)
        = filter (\<lambda>e. ca_id e \<notin> ca_id ` set (take (Suc k) (x # xs))) store"
      by (auto simp: store_delete_def intro: filter_cong)
    have least: "\<forall>j<Suc k. \<not> within_budgets (drop j (x # xs))"
    proof (intro allI impI)
      fix j assume "j < Suc k"
      then show "\<not> within_budgets (drop j (x # xs))"
        using False k(4) by (cases j) auto
    qed
    have res: "evictLoop (\<Sum>e\<leftarrow>x # xs. int (ca_size e)) (x # xs) store
        = (drop (Suc k) (x # xs),
           filter (\<lambda>e. ca_id e \<notin> ca_id ` set (take (Suc k) (x # xs))) store)"
      by (simp only: step k(2) flt drop_Suc_Cons)
    have "Suc k \<le> length (x # xs)" "within_budgets (drop (Suc k) (x # xs))"
      using k(1,3) by simp_all
    with res least show ?thesis by blast
  qed
qed

lemma ensureCacheSpace_run:
  "\<exists>k\<le>length (audioCache d).
      ensureCacheSpace True (Some d)
        = Some (d\<lparr>audioCache :=
             filter (\<lambda>e. ca_id e \<notin> ca_id ` set (take k (index_lastAccessed (audioCache d))))
               (audioCache d)\<rparr>)
      \<and> within_budgets (drop k (index_lastAccessed (audioCache d)))
      \<and> (\<forall>j<k. \<not> within_budgets (drop j (index_lastAccessed (audioCache d))))"
proof -
  have idem: "sort_key ca_lastAccessed (index_lastAccessed (audioCache d))
                = index_lastAccessed (audioCache d)"
    unfolding index_lastAccessed_def by (rule sort_key_id_if_sorted) simp
  from evictLoop_prefix [of "index_lastAccessed (audioCache d)" "audioCache d"]
  obtain k where k: "k \<le> length (index_lastAccessed (audioCache d))"
    "evictLoop (\<Sum>e\<leftarrow>index_lastAccessed (audioCache d). int (ca_size e))
        (index_lastAccessed (audioCache d)) (audioCache d)
      = (drop k (index_lastAccessed (audioCache d)),
         filter (\<lambda>e. ca_id e \<notin> ca_id ` set (take k (index_lastAccessed (audioCache d))))
           (audioCache d))"
    "within_budgets (drop k (index_lastAccessed (audioCache d)))"
    "\<forall>j<k. \<not> within_budgets (drop j (index_lastAccessed (audioCache d)))"
    by blast
  have "ensureCacheSpace True (Some d)
        = Some (d\<lparr>audioCache :=
             filter (\<lambda>e. ca_id e \<notin> ca_id ` set (take k (index_lastAccessed (audioCache d))))
               (audioCache d)\<rparr>)"
    by (simp add: ensureCacheSpace_def Let_def idem k(2))
  moreover have "k \<le> length (audioCache d)"
    using k(1) by (simp add: index_lastAccessed_def)
  ultimately show ?thesis using k(3,4) by blast
qed

lemma ensureCacheSpace_within:
  assumes "within_budgets (audioCache d)"
  shows "ensureCacheSpace cursorOk (Some d) = Some d"
proof (cases cursorOk)
  case False
  then show ?thesis by (simp add: ensureCacheSpace_def)
next
  case True
  from ensureCacheSpace_run [of d] obtain k where
    run: "ensureCacheSpace True (Some d)
        = Some (d\<lparr>audioCache :=
             filter (\<lambda>e. ca_id e \<notin> ca_id ` set (take k (index_lastAccessed (audioCache d))))
               (audioCache d)\<rparr>)"
    and least: "\<forall>j<k. \<not> within_budgets (drop j (index_lastAccessed (audioCache d)))"
    by blast
  have "within_budgets (drop 0 (index_lastAccessed (audioCache d)))"
    using assms by (simp add: index_lastAccessed_def within_budgets_sort_key)
  with least have "k = 0" by (cases k) auto
  with run True show ?thesis by simp
qed

text \<open>With one record per key, what stays in the store is the rest of the sorted array.\<close>

lemma kept_is_rest:
  assumes "distinct (map ca_id store)"
  shows "set (filter (\<lambda>e. ca_id e \<notin> ca_id ` set (take k (index_lastAccessed store))) store)
          = set (drop k (index_lastAccessed store))"
proof -
  let ?s = "index_lastAccessed store"
  have dst: "distinct store" and inj: "inj_on ca_id (set store)"
    using assms by (simp_all add: distinct_map)
  have set_s: "set ?s = set store" and dist_s: "distinct ?s"
    using dst by (simp_all add: index_lastAccessed_def)
  have split: "set (take k ?s) \<union> set (drop k ?s) = set store"
    using set_s by (metis append_take_drop_id set_append)
  have disj: "set (take k ?s) \<inter> set (drop k ?s) = {}"
    using dist_s by (metis append_take_drop_id distinct_append)
  show ?thesis
  proof (intro set_eqI iffI)
    fix e assume "e \<in> set (filter (\<lambda>e. ca_id e \<notin> ca_id ` set (take k ?s)) store)"
    then have "e \<in> set store" "e \<notin> set (take k ?s)" by auto
    then show "e \<in> set (drop k ?s)" using split by blast
  next
    fix e assume e: "e \<in> set (drop k ?s)"
    then have in_store: "e \<in> set store" using split by blast
    have "ca_id e \<notin> ca_id ` set (take k ?s)"
    proof
      assume "ca_id e \<in> ca_id ` set (take k ?s)"
      then obtain e' where e': "e' \<in> set (take k ?s)" "ca_id e' = ca_id e" by auto
      then have "e' \<in> set store" using split by blast
      with inj in_store e'(2) have "e' = e" by (auto dest: inj_onD)
      with e e'(1) disj show False by blast
    qed
    with in_store show "e \<in> set (filter (\<lambda>e. ca_id e \<notin> ca_id ` set (take k ?s)) store)"
      by simp
  qed
qed

text \<open>
  C2. With one record per key in the store and the cursor request succeeding, the
  pre-check removes exactly the first \<open>k\<close> entries of the store in ascending order of
  lastAccessed, for the least \<open>k\<close> whose removal leaves the rest within both budgets
  (500 MB in total, 50 entries): the rest is within the budgets, and before each of the
  \<open>k\<close> removals the entries still present were not. Nothing else in the database changes.
\<close>

theorem ensureCacheSpace_lru:
  assumes "distinct (map ca_id (audioCache d))"
  shows "\<exists>k d'. k \<le> length (audioCache d)
      \<and> ensureCacheSpace True (Some d) = Some d'
      \<and> playCounts d' = playCounts d
      \<and> audioCache d' = filter (\<lambda>e. e \<notin> set (take k (index_lastAccessed (audioCache d))))
                           (audioCache d)
      \<and> set (audioCache d') = set (drop k (index_lastAccessed (audioCache d)))
      \<and> sorted (map ca_lastAccessed (index_lastAccessed (audioCache d)))
      \<and> within_budgets (audioCache d')
      \<and> (\<forall>j<k. \<not> within_budgets (drop j (index_lastAccessed (audioCache d))))"
proof -
  let ?s = "index_lastAccessed (audioCache d)"
  from ensureCacheSpace_run [of d] obtain k where k: "k \<le> length (audioCache d)"
    and run: "ensureCacheSpace True (Some d)
        = Some (d\<lparr>audioCache := filter (\<lambda>e. ca_id e \<notin> ca_id ` set (take k ?s)) (audioCache d)\<rparr>)"
    and fits: "within_budgets (drop k ?s)"
    and least: "\<forall>j<k. \<not> within_budgets (drop j ?s)"
    by blast
  let ?kept = "filter (\<lambda>e. ca_id e \<notin> ca_id ` set (take k ?s)) (audioCache d)"
  have dst: "distinct (audioCache d)" and inj: "inj_on ca_id (set (audioCache d))"
    using assms by (simp_all add: distinct_map)
  have set_s: "set ?s = set (audioCache d)" and dist_s: "distinct ?s"
    using dst by (simp_all add: index_lastAccessed_def)
  have rest: "set ?kept = set (drop k ?s)"
    using assms by (rule kept_is_rest)
  have by_entry: "?kept = filter (\<lambda>e. e \<notin> set (take k ?s)) (audioCache d)"
  proof (rule filter_cong [OF refl])
    fix e assume e: "e \<in> set (audioCache d)"
    have "set (take k ?s) \<subseteq> set (audioCache d)"
      using set_s by (metis set_take_subset)
    with e inj show "(ca_id e \<notin> ca_id ` set (take k ?s)) = (e \<notin> set (take k ?s))"
      by (auto dest: inj_onD)
  qed
  have "distinct ?kept" "distinct (drop k ?s)"
    using dst dist_s by simp_all
  with rest have "(\<Sum>e\<leftarrow>?kept. int (ca_size e)) = (\<Sum>e\<leftarrow>drop k ?s. int (ca_size e))"
    and "length ?kept = length (drop k ?s)"
    by (simp_all only: sum_list_distinct_conv_sum_set flip: distinct_card)
  with fits have kept_fits: "within_budgets ?kept"
    by (simp only: within_budgets_def)
  have srt: "sorted (map ca_lastAccessed ?s)"
    by (simp add: index_lastAccessed_def)
  show ?thesis
    using k run rest by_entry srt kept_fits least
    by (intro exI [of _ k] exI [of _ "d\<lparr>audioCache := ?kept\<rparr>"]) simp
qed

text \<open>The fixture: eleven keys, over the byte budget, and what the pre-check leaves of it.\<close>

lemma fullCache_distinct: "distinct (map ca_id (audioCache fullCache))"
  by (simp add: fullCache_def mkEntry_def)

lemma fullCache_over: "\<not> within_budgets (audioCache fullCache)"
  by (simp add: fullCache_def mkEntry_def within_budgets_def)

lemma fullCache_evicted:
  "map_option (\<lambda>d. map ca_id (audioCache d)) (ensureCacheSpace True (Some fullCache))
     = Some [''a'', ''aa'', ''aaa'', ''aaaa'', ''aaaaa'', ''aaaaaa'', ''aaaaaaa'', ''aaaaaaaa'',
             ''aaaaaaaaa'', ''aaaaaaaaaaa'']"
  by (simp add: fullCache_def mkEntry_def ensureCacheSpace_def index_lastAccessed_def
      MAX_CACHE_SIZE_MB_def MAX_CACHE_ITEMS_def store_delete_def)

theorem ensureCacheSpace_lru_witness:
  "distinct (map ca_id (audioCache fullCache))
   \<and> (\<exists>k d'. k \<le> length (audioCache fullCache)
      \<and> ensureCacheSpace True (Some fullCache) = Some d'
      \<and> playCounts d' = playCounts fullCache
      \<and> audioCache d' = filter (\<lambda>e. e \<notin> set (take k (index_lastAccessed (audioCache fullCache))))
                           (audioCache fullCache)
      \<and> set (audioCache d') = set (drop k (index_lastAccessed (audioCache fullCache)))
      \<and> sorted (map ca_lastAccessed (index_lastAccessed (audioCache fullCache)))
      \<and> within_budgets (audioCache d')
      \<and> (\<forall>j<k. \<not> within_budgets (drop j (index_lastAccessed (audioCache fullCache)))))
   \<and> \<not> within_budgets (audioCache fullCache)
   \<and> map_option (\<lambda>d. map ca_id (audioCache d)) (ensureCacheSpace True (Some fullCache))
       = Some [''a'', ''aa'', ''aaa'', ''aaaa'', ''aaaaa'', ''aaaaaa'', ''aaaaaaa'', ''aaaaaaaa'',
               ''aaaaaaaaa'', ''aaaaaaaaaaa'']"
  using ensureCacheSpace_lru [OF fullCache_distinct] fullCache_distinct fullCache_over
    fullCache_evicted
  by (intro conjI)

subsection \<open>Admission\<close>

text \<open>
  C8, as stated, fails: the pre-check runs before the payload is fetched and measured.
  On the cache of eleven entries, a call whose payload has 50 MB and one byte returns
  false and leaves ten entries: the one accessed longest ago is gone.
\<close>

theorem cacheAudio_oversized_counterexample:
  "fst (cacheAudio (\<lambda>_. 100) True True (Body \<lparr>b_size = 50 * 1024 * 1024 + 1, b_type = ''audio/mpeg''\<rparr>)
          True (Some fullCache) ''new'' ''https://example.org/n.mp3'' ''Song'' ''artist'') = False
   \<and> map_option (\<lambda>d. map ca_id (audioCache d))
        (snd (cacheAudio (\<lambda>_. 100) True True
               (Body \<lparr>b_size = 50 * 1024 * 1024 + 1, b_type = ''audio/mpeg''\<rparr>)
               True (Some fullCache) ''new'' ''https://example.org/n.mp3'' ''Song'' ''artist''))
       = Some [''a'', ''aa'', ''aaa'', ''aaaa'', ''aaaaa'', ''aaaaaa'', ''aaaaaaa'', ''aaaaaaaa'',
               ''aaaaaaaaa'', ''aaaaaaaaaaa'']
   \<and> map ca_id (audioCache fullCache)
       = [''a'', ''aa'', ''aaa'', ''aaaa'', ''aaaaa'', ''aaaaaa'', ''aaaaaaa'', ''aaaaaaaa'',
          ''aaaaaaaaa'', ''aaaaaaaaaa'', ''aaaaaaaaaaa'']"
proof -
  have nc: "\<not> isCached True (Some fullCache) ''new''"
    by (simp add: isCached_def store_get_def fullCache_def mkEntry_def)
  have "cacheAudio (\<lambda>_. 100) True True
          (Body \<lparr>b_size = 50 * 1024 * 1024 + 1, b_type = ''audio/mpeg''\<rparr>)
          True (Some fullCache) ''new'' ''https://example.org/n.mp3'' ''Song'' ''artist''
        = (False, ensureCacheSpace True (Some fullCache))"
    using nc by (simp add: cacheAudio_def)
  moreover have "map ca_id (audioCache fullCache)
       = [''a'', ''aa'', ''aaa'', ''aaaa'', ''aaaaa'', ''aaaaaa'', ''aaaaaaa'', ''aaaaaaaa'',
          ''aaaaaaaaa'', ''aaaaaaaaaa'', ''aaaaaaaaaaa'']"
    by (simp add: fullCache_def mkEntry_def)
  ultimately show ?thesis
    by (simp only: fst_conv snd_conv fullCache_evicted simp_thms)
qed

text \<open>
  C8, amended. A call for an id that isCached reports as cached returns true and leaves
  the database as it is. A call whose payload exceeds 50 MB returns false, and its only
  effect is that of the eviction pre-check, which has run before the fetch: the store
  afterwards is the store before without its \<open>k\<close> entries accessed longest ago, for some
  \<open>k\<close>; no entry is added or modified and none is written for the id. When the store is
  within both budgets beforehand, the call changes nothing.
\<close>

theorem cacheAudio_oversized_or_cached:
  "(isCached getOk (Some d) i \<longrightarrow>
      cacheAudio now getOk cursorOk fetched putOk (Some d) i url ti ar = (True, Some d))
   \<and> (\<not> isCached getOk (Some d) i \<and> 50 * 1024 * 1024 < b_size blob \<longrightarrow>
        cacheAudio now getOk cursorOk (Body blob) putOk (Some d) i url ti ar
          = (False, ensureCacheSpace cursorOk (Some d))
        \<and> (\<exists>k. ensureCacheSpace cursorOk (Some d)
                 = Some (d\<lparr>audioCache :=
                      filter (\<lambda>e. ca_id e \<notin> ca_id ` set (take k (index_lastAccessed (audioCache d))))
                        (audioCache d)\<rparr>))
        \<and> (store_get i (audioCache d) = None \<longrightarrow>
             (\<exists>d'. ensureCacheSpace cursorOk (Some d) = Some d'
                   \<and> store_get i (audioCache d') = None))
        \<and> (within_budgets (audioCache d) \<longrightarrow> ensureCacheSpace cursorOk (Some d) = Some d))"
proof -
  have ex: "\<exists>k. ensureCacheSpace cursorOk (Some d)
                 = Some (d\<lparr>audioCache :=
                      filter (\<lambda>e. ca_id e \<notin> ca_id ` set (take k (index_lastAccessed (audioCache d))))
                        (audioCache d)\<rparr>)"
  proof (cases cursorOk)
    case True
    from ensureCacheSpace_run [of d] obtain k where
      "ensureCacheSpace True (Some d)
         = Some (d\<lparr>audioCache :=
              filter (\<lambda>e. ca_id e \<notin> ca_id ` set (take k (index_lastAccessed (audioCache d))))
                (audioCache d)\<rparr>)"
      by blast
    with True show ?thesis by auto
  next
    case False
    then have "ensureCacheSpace cursorOk (Some d)
       = Some (d\<lparr>audioCache :=
                      filter (\<lambda>e. ca_id e \<notin> ca_id ` set (take 0 (index_lastAccessed (audioCache d))))
                        (audioCache d)\<rparr>)"
      by (simp add: ensureCacheSpace_def)
    then show ?thesis by blast
  qed
  have absent: "store_get i (audioCache d) = None \<longrightarrow>
             (\<exists>d'. ensureCacheSpace cursorOk (Some d) = Some d'
                   \<and> store_get i (audioCache d') = None)"
  proof
    assume none: "store_get i (audioCache d) = None"
    from ex obtain k where k: "ensureCacheSpace cursorOk (Some d)
                 = Some (d\<lparr>audioCache :=
                      filter (\<lambda>e. ca_id e \<notin> ca_id ` set (take k (index_lastAccessed (audioCache d))))
                        (audioCache d)\<rparr>)"
      by blast
    have "store_get i (filter (\<lambda>e. ca_id e \<notin> ca_id ` set (take k (index_lastAccessed (audioCache d))))
                        (audioCache d)) = None"
      using none by (auto simp: store_get_def find_None_iff)
    with k show "\<exists>d'. ensureCacheSpace cursorOk (Some d) = Some d'
                   \<and> store_get i (audioCache d') = None"
      by simp
  qed
  have cached: "isCached getOk (Some d) i \<longrightarrow>
      cacheAudio now getOk cursorOk fetched putOk (Some d) i url ti ar = (True, Some d)"
    by (simp add: cacheAudio_def)
  have big: "\<not> isCached getOk (Some d) i \<and> 50 * 1024 * 1024 < b_size blob \<longrightarrow>
        cacheAudio now getOk cursorOk (Body blob) putOk (Some d) i url ti ar
          = (False, ensureCacheSpace cursorOk (Some d))"
    by (simp add: cacheAudio_def Let_def)
  from cached big ex absent ensureCacheSpace_within [of d cursorOk] show ?thesis
    by blast
qed

theorem cacheAudio_oversized_or_cached_witness:
  "isCached True (Some fullCache) ''aa''
   \<and> cacheAudio (\<lambda>_. 100) True True FetchRejected True (Some fullCache) ''aa'' ''u'' ''t'' ''r''
       = (True, Some fullCache)
   \<and> \<not> isCached True (Some \<lparr>audioCache = [mkEntry ''a'' 7 1], playCounts = Map.empty\<rparr>) ''new''
   \<and> 50 * 1024 * 1024 < b_size \<lparr>b_size = 50 * 1024 * 1024 + 1, b_type = ''audio/mpeg''\<rparr>
   \<and> store_get ''new'' (audioCache \<lparr>audioCache = [mkEntry ''a'' 7 1], playCounts = Map.empty\<rparr>) = None
   \<and> within_budgets (audioCache \<lparr>audioCache = [mkEntry ''a'' 7 1], playCounts = Map.empty\<rparr>)
   \<and> cacheAudio (\<lambda>_. 100) True True (Body \<lparr>b_size = 50 * 1024 * 1024 + 1, b_type = ''audio/mpeg''\<rparr>)
        True (Some \<lparr>audioCache = [mkEntry ''a'' 7 1], playCounts = Map.empty\<rparr>) ''new'' ''u'' ''t'' ''r''
       = (False, Some \<lparr>audioCache = [mkEntry ''a'' 7 1], playCounts = Map.empty\<rparr>)"
proof -
  have c: "isCached True (Some fullCache) ''aa''"
    by (simp add: isCached_def store_get_def fullCache_def mkEntry_def)
  have n: "\<not> isCached True (Some \<lparr>audioCache = [mkEntry ''a'' 7 1], playCounts = Map.empty\<rparr>) ''new''"
    by (simp add: isCached_def store_get_def mkEntry_def)
  have s: "store_get ''new'' (audioCache \<lparr>audioCache = [mkEntry ''a'' 7 1], playCounts = Map.empty\<rparr>) = None"
    by (simp add: store_get_def mkEntry_def)
  have w: "within_budgets (audioCache \<lparr>audioCache = [mkEntry ''a'' 7 1], playCounts = Map.empty\<rparr>)"
    by (simp add: within_budgets_def mkEntry_def)
  have b: "50 * 1024 * 1024 < b_size \<lparr>b_size = 50 * 1024 * 1024 + 1, b_type = ''audio/mpeg''\<rparr>"
    by simp
  show ?thesis
    using c n s w b
      cacheAudio_oversized_or_cached [of True fullCache "''aa''" "\<lambda>_. 100" True FetchRejected True
        "''u''" "''t''" "''r''" "\<lparr>b_size = 50 * 1024 * 1024 + 1, b_type = ''audio/mpeg''\<rparr>"]
      cacheAudio_oversized_or_cached [of True "\<lparr>audioCache = [mkEntry ''a'' 7 1], playCounts = Map.empty\<rparr>"
        "''new''" "\<lambda>_. 100" True FetchRejected True
        "''u''" "''t''" "''r''" "\<lparr>b_size = 50 * 1024 * 1024 + 1, b_type = ''audio/mpeg''\<rparr>"]
    by simp
qed

section \<open>Recommendation ranker\<close>

subsection \<open>Slices and insertions\<close>

lemma set_slice_to: "set (slice_to n xs) \<subseteq> set xs"
  by (simp add: slice_to_def Let_def set_take_subset)

lemma length_slice_to: "0 \<le> n \<Longrightarrow> length (slice_to n xs) \<le> nat n"
  by (simp add: slice_to_def Let_def)

lemma slice_to_all: "int (length xs) \<le> n \<Longrightarrow> slice_to n xs = xs"
  by (simp add: slice_to_def Let_def)

lemma set_splice_insert: "set (splice_insert pos x xs) = insert x (set xs)"
proof -
  have "set (take k xs) \<union> set (drop k xs) = set xs" for k
    by (metis append_take_drop_id set_append)
  then show ?thesis
    by (auto simp: splice_insert_def Let_def)
qed

lemma length_splice_insert: "length (splice_insert pos x xs) = Suc (length xs)"
  by (simp add: splice_insert_def Let_def)

lemma set_interleave: "set (interleave cc dc i ds fin) = set ds \<union> set fin"
  by (induction ds arbitrary: i fin) (auto simp: Let_def set_splice_insert)

lemma length_interleave: "length (interleave cc dc i ds fin) = length ds + length fin"
  by (induction ds arbitrary: i fin) (auto simp: Let_def length_splice_insert)

subsection \<open>The discovery loop\<close>

lemma randomIndex_in_range:
  assumes "0 \<le> r" "r < 1" "0 < n"
  shows "nat \<lfloor>r * real n\<rfloor> < n"
proof -
  have "r * real n < real n" using assms by simp
  then have "\<lfloor>r * real n\<rfloor> < int n" by (simp add: floor_less_iff)
  then show ?thesis using assms(3) by linarith
qed

text \<open>Every pick is an object of the pool, marked; what was picked before stays.\<close>

lemma discoveryLoop_picks:
  assumes "\<forall>i. 0 \<le> rnd i \<and> rnd i < 1"
  shows "set (discoveryLoop rnd i dc pool acc)
           \<subseteq> set acc \<union> (\<lambda>d. d\<lparr>st_isDiscovery := True\<rparr>) ` set pool"
  using assms
proof (induction rnd i dc pool acc rule: discoveryLoop.induct)
  case (1 rnd i dc pool acc)
  show ?case
  proof (cases "int i < dc \<and> length pool > 0")
    case False
    then have "discoveryLoop rnd i dc pool acc = acc"
      by (subst discoveryLoop.simps) (rule if_not_P)
    then show ?thesis by simp
  next
    case True
    define k where "k = nat \<lfloor>rnd i * real (length pool)\<rfloor>"
    have k: "k < length pool"
      unfolding k_def using "1.prems" True by (intro randomIndex_in_range) auto
    have step: "discoveryLoop rnd i dc pool acc
        = discoveryLoop rnd (Suc i) dc (take k pool @ drop (Suc k) pool)
            (acc @ [(pool ! k)\<lparr>st_isDiscovery := True\<rparr>])"
      using True by (simp add: discoveryLoop.simps [of rnd i dc pool acc] k_def Let_def)
    have sub: "set (take k pool @ drop (Suc k) pool) \<subseteq> set pool"
      by (auto dest: in_set_takeD in_set_dropD)
    have "set (discoveryLoop rnd (Suc i) dc (take k pool @ drop (Suc k) pool)
            (acc @ [(pool ! k)\<lparr>st_isDiscovery := True\<rparr>]))
          \<subseteq> set (acc @ [(pool ! k)\<lparr>st_isDiscovery := True\<rparr>])
            \<union> (\<lambda>d. d\<lparr>st_isDiscovery := True\<rparr>) ` set (take k pool @ drop (Suc k) pool)"
      using "1.IH" [OF True k_def refl "1.prems"] .
    also have "\<dots> \<subseteq> set acc \<union> (\<lambda>d. d\<lparr>st_isDiscovery := True\<rparr>) ` set pool"
      using k sub by auto
    finally show ?thesis unfolding step .
  qed
qed

lemma discoveryLoop_length:
  "length (discoveryLoop rnd i dc pool acc) \<le> length acc + nat (dc - int i)"
proof (induction rnd i dc pool acc rule: discoveryLoop.induct)
  case (1 rnd i dc pool acc)
  show ?case
  proof (cases "int i < dc \<and> length pool > 0")
    case False
    then have "discoveryLoop rnd i dc pool acc = acc"
      by (subst discoveryLoop.simps) (rule if_not_P)
    then show ?thesis by simp
  next
    case True
    define k where "k = nat \<lfloor>rnd i * real (length pool)\<rfloor>"
    have step: "discoveryLoop rnd i dc pool acc
        = discoveryLoop rnd (Suc i) dc (take k pool @ drop (Suc k) pool)
            (acc @ [(pool ! k)\<lparr>st_isDiscovery := True\<rparr>])"
      using True by (simp add: discoveryLoop.simps [of rnd i dc pool acc] k_def Let_def)
    have "Suc (nat (dc - int (Suc i))) \<le> nat (dc - int i)"
      using True by linarith
    with "1.IH" [OF True k_def refl] show ?thesis
      unfolding step by simp
  qed
qed

lemma discoveryLoop_keeps:
  "set acc \<subseteq> set (discoveryLoop rnd i dc pool acc)"
proof (induction rnd i dc pool acc rule: discoveryLoop.induct)
  case (1 rnd i dc pool acc)
  show ?case
  proof (cases "int i < dc \<and> length pool > 0")
    case False
    then have "discoveryLoop rnd i dc pool acc = acc"
      by (subst discoveryLoop.simps) (rule if_not_P)
    then show ?thesis by simp
  next
    case True
    define k where "k = nat \<lfloor>rnd i * real (length pool)\<rfloor>"
    have step: "discoveryLoop rnd i dc pool acc
        = discoveryLoop rnd (Suc i) dc (take k pool @ drop (Suc k) pool)
            (acc @ [(pool ! k)\<lparr>st_isDiscovery := True\<rparr>])"
      using True by (simp add: discoveryLoop.simps [of rnd i dc pool acc] k_def Let_def)
    show ?thesis
      unfolding step using "1.IH" [OF True k_def refl] by simp
  qed
qed

lemma discoveryLoop_first_pick:
  assumes "int i < dc" "pool \<noteq> []"
  shows "(pool ! nat \<lfloor>rnd i * real (length pool)\<rfloor>)\<lparr>st_isDiscovery := True\<rparr>
           \<in> set (discoveryLoop rnd i dc pool acc)"
proof -
  define k where "k = nat \<lfloor>rnd i * real (length pool)\<rfloor>"
  have step: "discoveryLoop rnd i dc pool acc
        = discoveryLoop rnd (Suc i) dc (take k pool @ drop (Suc k) pool)
            (acc @ [(pool ! k)\<lparr>st_isDiscovery := True\<rparr>])"
    using assms by (simp add: discoveryLoop.simps [of rnd i dc pool acc] k_def Let_def)
  show ?thesis
    unfolding step k_def [symmetric]
    using discoveryLoop_keeps [of "acc @ [(pool ! k)\<lparr>st_isDiscovery := True\<rparr>]" rnd "Suc i" dc
        "take k pool @ drop (Suc k) pool"]
    by auto
qed

subsection \<open>The result of getRecommendations\<close>

text \<open>The local constants of the function, for a profile that is passed.\<close>

lemma getRecommendations_parts:
  obtains scored content pool dc where
    "set scored = (\<lambda>track. \<lparr>st_track = track, st_score = fst (calculateTrackScore track p),
                    st_matchedTags = snd (calculateTrackScore track p),
                    st_isDiscovery = False\<rparr>) ` set allTracks"
    "dc = max 1 \<lfloor>real_of_int limit * SERENDIPITY_RATIO\<rfloor>"
    "content = slice_to (limit - dc) (filter (\<lambda>st. st_score st > - 50) scored)"
    "pool = filter (\<lambda>st. \<not> list_ex (\<lambda>cr. t_id (st_track cr) = t_id (st_track st)) content)
              (filter (\<lambda>st. t_id (st_track st) \<notin> set (dislikedSongs p)) scored)"
    "getRecommendations rnd now stored allTracks (Some p) limit
       = slice_to limit (interleave (limit - dc) dc 0 (discoveryLoop rnd 0 dc pool []) content)"
proof -
  define scored where "scored = sort_key (\<lambda>st. - st_score st)
              (map (\<lambda>track. \<lparr>st_track = track, st_score = fst (calculateTrackScore track p),
                    st_matchedTags = snd (calculateTrackScore track p),
                    st_isDiscovery = False\<rparr>) allTracks)"
  define dc where "dc = max 1 \<lfloor>real_of_int limit * SERENDIPITY_RATIO\<rfloor>"
  define content where
    "content = slice_to (limit - dc) (filter (\<lambda>st. st_score st > - 50) scored)"
  define pool where
    "pool = filter (\<lambda>st. \<not> list_ex (\<lambda>cr. t_id (st_track cr) = t_id (st_track st)) content)
              (filter (\<lambda>st. t_id (st_track st) \<notin> set (dislikedSongs p)) scored)"
  have set_scored: "set scored = (\<lambda>track. \<lparr>st_track = track,
                    st_score = fst (calculateTrackScore track p),
                    st_matchedTags = snd (calculateTrackScore track p),
                    st_isDiscovery = False\<rparr>) ` set allTracks"
    by (simp add: scored_def)
  have "getRecommendations rnd now stored allTracks (Some p) limit
       = slice_to limit (interleave (limit - dc) dc 0 (discoveryLoop rnd 0 dc pool []) content)"
    unfolding getRecommendations_def Let_def pool_def content_def dc_def scored_def
    by (simp add: case_prod_beta)
  with set_scored dc_def content_def pool_def show ?thesis by (rule that)
qed

lemma dislike_penalty:
  assumes "t_id track \<in> set (dislikedSongs p)"
  shows "fst (calculateTrackScore track p)
           = fst (calculateTrackScore track (p\<lparr>dislikedSongs := []\<rparr>)) - 100"
  using assms by (simp add: calculateTrackScore_def Let_def case_prod_beta)

text \<open>The fixtures, evaluated.\<close>

lemma synthFan_disliked: "dislikedSongs synthFan = [''x'']"
  by code_simp

lemma synthFan_recs:
  "getRecommendations (\<lambda>_. 0) (\<lambda>_. 0) NoItem synthTracks (Some synthFan) 20
     = map (\<lambda>(i, s). \<lparr>st_track = mkTrack i ''Track'' ''Synthwave'', st_score = s,
                       st_matchedTags = [''Synthwave'', ''Electronic'', ''Energetic'', ''Cinematic''],
                       st_isDiscovery = False\<rparr>)
         [(''s1'', 62), (''s2'', 62), (''s3'', 62), (''s4'', 62), (''s5'', 62), (''x'', - 40)]"
  by code_simp

lemma popHater_recs:
  "''x'' \<in> set (dislikedSongs (loadUserProfile (\<lambda>_. 0) (Parsed popHater)))
   \<and> map (\<lambda>st. (t_id (st_track st), st_score st, st_isDiscovery st))
        (getRecommendations (\<lambda>_. 0) (\<lambda>_. 0) (Parsed popHater) [mkTrack ''x'' ''Song'' ''Pop''] None 20)
      = [(''x'', - 110, True)]"
  by code_simp

text \<open>
  C1, as stated, fails. The listener of \<open>synthFan\<close> has disliked \<open>x\<close>; the four tags of
  \<open>x\<close> stand at 15 each, its score is \<open>60 - 100 = -40\<close>, which passes the filter
  \<open>> -50\<close>, and \<open>x\<close> is recommended. When the profile argument is omitted and the stored
  profile is that of \<open>popHater\<close>, the disliked \<open>x\<close> with score -110 is the discovery pick.
\<close>

theorem disliked_recommended_counterexample:
  "''x'' \<in> set (dislikedSongs synthFan)
   \<and> map (\<lambda>st. (t_id (st_track st), st_score st, st_isDiscovery st))
        (getRecommendations (\<lambda>_. 0) (\<lambda>_. 0) NoItem synthTracks (Some synthFan) 20)
      = [(''s1'', 62, False), (''s2'', 62, False), (''s3'', 62, False), (''s4'', 62, False),
         (''s5'', 62, False), (''x'', - 40, False)]
   \<and> ''x'' \<in> set (dislikedSongs (loadUserProfile (\<lambda>_. 0) (Parsed popHater)))
   \<and> map (\<lambda>st. (t_id (st_track st), st_score st, st_isDiscovery st))
        (getRecommendations (\<lambda>_. 0) (\<lambda>_. 0) (Parsed popHater) [mkTrack ''x'' ''Song'' ''Pop''] None 20)
      = [(''x'', - 110, True)]"
  using popHater_recs by (simp add: synthFan_disliked synthFan_recs mkTrack_def)

text \<open>
  C1, amended. For every profile that is passed to getRecommendations, every catalog and
  every limit: no discovery pick is a disliked item, and a disliked item is in the result
  only as an element of the content slate whose score is above -50, the score being the
  one the item would have without the dislike, less 100. So a disliked item whose other
  score terms sum to at most 50 is never in the result.
\<close>

theorem disliked_only_above_threshold:
  assumes "\<forall>i. 0 \<le> rnd i \<and> rnd i < 1"
    and "st \<in> set (getRecommendations rnd now stored allTracks (Some p) limit)"
    and "t_id (st_track st) \<in> set (dislikedSongs p)"
  shows "\<not> st_isDiscovery st
     \<and> st_score st = fst (calculateTrackScore (st_track st) (p\<lparr>dislikedSongs := []\<rparr>)) - 100
     \<and> st_score st > - 50"
proof -
  obtain scored content pool dc where
    scored: "set scored = (\<lambda>track. \<lparr>st_track = track, st_score = fst (calculateTrackScore track p),
                    st_matchedTags = snd (calculateTrackScore track p),
                    st_isDiscovery = False\<rparr>) ` set allTracks"
    and content: "content = slice_to (limit - dc) (filter (\<lambda>st. st_score st > - 50) scored)"
    and pool: "pool = filter (\<lambda>st. \<not> list_ex (\<lambda>cr. t_id (st_track cr) = t_id (st_track st)) content)
              (filter (\<lambda>st. t_id (st_track st) \<notin> set (dislikedSongs p)) scored)"
    and out: "getRecommendations rnd now stored allTracks (Some p) limit
       = slice_to limit (interleave (limit - dc) dc 0 (discoveryLoop rnd 0 dc pool []) content)"
    by (rule getRecommendations_parts)
  have "st \<in> set (interleave (limit - dc) dc 0 (discoveryLoop rnd 0 dc pool []) content)"
    using assms(2) [unfolded out] set_slice_to by (rule subsetD [rotated])
  then have "st \<in> set (discoveryLoop rnd 0 dc pool []) \<or> st \<in> set content"
    by (simp only: set_interleave Un_iff)
  then show ?thesis
  proof
    assume "st \<in> set (discoveryLoop rnd 0 dc pool [])"
    with discoveryLoop_picks [OF assms(1), of 0 dc pool "[]"]
    have "st \<in> set [] \<union> (\<lambda>d. d\<lparr>st_isDiscovery := True\<rparr>) ` set pool"
      by (rule subsetD)
    then obtain d where d: "d \<in> set pool" "st = d\<lparr>st_isDiscovery := True\<rparr>"
      by auto
    from d(1) have "t_id (st_track d) \<notin> set (dislikedSongs p)"
      unfolding pool by simp
    moreover have "st_track st = st_track d"
      by (simp add: d(2))
    ultimately show ?thesis using assms(3) by simp
  next
    assume "st \<in> set content"
    then have "st \<in> set (filter (\<lambda>st. st_score st > - 50) scored)"
      unfolding content using set_slice_to by (rule subsetD [rotated])
    then have above: "st_score st > - 50" and "st \<in> set scored"
      by simp_all
    from this(2) [unfolded scored] obtain track where st: "st = \<lparr>st_track = track,
        st_score = fst (calculateTrackScore track p),
        st_matchedTags = snd (calculateTrackScore track p), st_isDiscovery = False\<rparr>"
      by (rule imageE)
    have tr: "st_track st = track" and sc: "st_score st = fst (calculateTrackScore track p)"
      and nd: "\<not> st_isDiscovery st"
      by (simp_all add: st)
    have "fst (calculateTrackScore track p)
            = fst (calculateTrackScore track (p\<lparr>dislikedSongs := []\<rparr>)) - 100"
      using assms(3) unfolding tr by (rule dislike_penalty)
    with above nd show ?thesis unfolding tr sc by simp
  qed
qed

theorem disliked_only_above_threshold_witness:
  "(\<forall>i. (0::real) \<le> (\<lambda>_. 0) i \<and> (\<lambda>_. 0::real) i < 1)
   \<and> \<lparr>st_track = mkTrack ''x'' ''Track'' ''Synthwave'', st_score = - 40, st_matchedTags =
        [''Synthwave'', ''Electronic'', ''Energetic'', ''Cinematic''], st_isDiscovery = False\<rparr>
      \<in> set (getRecommendations (\<lambda>_. 0) (\<lambda>_. 0) NoItem synthTracks (Some synthFan) 20)
   \<and> ''x'' \<in> set (dislikedSongs synthFan)
   \<and> fst (calculateTrackScore (mkTrack ''x'' ''Track'' ''Synthwave'')
            (synthFan\<lparr>dislikedSongs := []\<rparr>)) = 60"
proof -
  have m: "\<lparr>st_track = mkTrack ''x'' ''Track'' ''Synthwave'', st_score = - 40, st_matchedTags =
        [''Synthwave'', ''Electronic'', ''Energetic'', ''Cinematic''], st_isDiscovery = False\<rparr>
      \<in> set (getRecommendations (\<lambda>_. 0) (\<lambda>_. 0) NoItem synthTracks (Some synthFan) 20)"
    by (simp add: synthFan_recs)
  have d: "t_id (st_track \<lparr>st_track = mkTrack ''x'' ''Track'' ''Synthwave'', st_score = - 40,
        st_matchedTags = [''Synthwave'', ''Electronic'', ''Energetic'', ''Cinematic''],
        st_isDiscovery = False\<rparr>) \<in> set (dislikedSongs synthFan)"
    by (simp add: synthFan_disliked mkTrack_def)
  have r: "\<forall>i. (0::real) \<le> (\<lambda>_. 0) i \<and> (\<lambda>_. 0::real) i < 1"
    by simp
  from disliked_only_above_threshold [OF r m d] m d r show ?thesis
    by (simp add: mkTrack_def)
qed

subsection \<open>The discovery quota\<close>

text \<open>With \<open>Math.random()\<close> in \<open>[0, 1)\<close> the loop picks until the count or the pool is exhausted.\<close>

lemma discoveryLoop_count:
  assumes "\<forall>i. 0 \<le> rnd i \<and> rnd i < 1"
  shows "length (discoveryLoop rnd i dc pool acc)
           = length acc + min (nat (dc - int i)) (length pool)"
  using assms
proof (induction rnd i dc pool acc rule: discoveryLoop.induct)
  case (1 rnd i dc pool acc)
  show ?case
  proof (cases "int i < dc \<and> length pool > 0")
    case False
    then have "discoveryLoop rnd i dc pool acc = acc"
      by (subst discoveryLoop.simps) (rule if_not_P)
    moreover from False have "min (nat (dc - int i)) (length pool) = 0"
      by auto
    ultimately show ?thesis by simp
  next
    case True
    define k where "k = nat \<lfloor>rnd i * real (length pool)\<rfloor>"
    have k: "k < length pool"
      unfolding k_def using "1.prems" True by (intro randomIndex_in_range) auto
    have step: "discoveryLoop rnd i dc pool acc
        = discoveryLoop rnd (Suc i) dc (take k pool @ drop (Suc k) pool)
            (acc @ [(pool ! k)\<lparr>st_isDiscovery := True\<rparr>])"
      using True by (simp add: discoveryLoop.simps [of rnd i dc pool acc] k_def Let_def)
    have shorter: "length (take k pool @ drop (Suc k) pool) = length pool - 1"
      using k by simp
    have a: "nat (dc - int (Suc i)) = nat (dc - int i) - 1"
      by linarith
    have "0 < nat (dc - int i)" "0 < length pool"
      using True by simp_all
    then have "Suc (min (nat (dc - int (Suc i))) (length pool - 1))
            = min (nat (dc - int i)) (length pool)"
      unfolding a by linarith
    with "1.IH" [OF True k_def refl "1.prems"] show ?thesis
      unfolding step shorter by simp
  qed
qed

lemma length_filter_splice_insert:
  "length (filter P (splice_insert pos x xs)) = (if P x then 1 else 0) + length (filter P xs)"
proof -
  have "length (filter P (take k xs)) + length (filter P (drop k xs)) = length (filter P xs)"
    for k
    by (metis append_take_drop_id filter_append length_append)
  then show ?thesis
    by (auto simp: splice_insert_def Let_def)
qed

lemma length_filter_interleave:
  "length (filter P (interleave cc dc i ds fin))
     = length (filter P ds) + length (filter P fin)"
  by (induction ds arbitrary: i fin) (auto simp: Let_def length_filter_splice_insert)

text \<open>
  C5. With \<open>Math.random()\<close> in \<open>[0, 1)\<close>: for every profile and every catalog of at least
  20 tracks with pairwise different ids, none of them disliked,
  getRecommendations(catalog, profile, 20) returns at most 20 elements, at least one of
  them marked as a discovery pick. The loop makes both picks of the quota
  \<open>max(1, floor(20 * 0.1)) = 2\<close>, and the truncation to 20 drops neither: exactly two
  elements of the result are marked.
\<close>

theorem discovery_quota:
  assumes "\<forall>i. 0 \<le> rnd i \<and> rnd i < 1"
    and "20 \<le> length allTracks"
    and "distinct (map t_id allTracks)"
    and "\<forall>t\<in>set allTracks. t_id t \<notin> set (dislikedSongs p)"
  shows "length (getRecommendations rnd now stored allTracks (Some p) 20) \<le> 20
     \<and> (\<exists>st\<in>set (getRecommendations rnd now stored allTracks (Some p) 20). st_isDiscovery st)
     \<and> length (filter st_isDiscovery (getRecommendations rnd now stored allTracks (Some p) 20))
         = 2"
proof -
  let ?mk = "\<lambda>track. \<lparr>st_track = track, st_score = fst (calculateTrackScore track p),
                    st_matchedTags = snd (calculateTrackScore track p),
                    st_isDiscovery = False\<rparr>"
  obtain scored content pool dc where
    scored: "set scored = ?mk ` set allTracks"
    and dc: "dc = max 1 \<lfloor>real_of_int 20 * SERENDIPITY_RATIO\<rfloor>"
    and content: "content = slice_to (20 - dc) (filter (\<lambda>st. st_score st > - 50) scored)"
    and pool: "pool = filter (\<lambda>st. \<not> list_ex (\<lambda>cr. t_id (st_track cr) = t_id (st_track st)) content)
              (filter (\<lambda>st. t_id (st_track st) \<notin> set (dislikedSongs p)) scored)"
    and out: "getRecommendations rnd now stored allTracks (Some p) 20
       = slice_to 20 (interleave (20 - dc) dc 0 (discoveryLoop rnd 0 dc pool []) content)"
    by (rule getRecommendations_parts)
  have dc2: "dc = 2"
    by (simp add: dc SERENDIPITY_RATIO_def)
  have len_content: "length content \<le> 18"
    using length_slice_to [of 18 "filter (\<lambda>st. st_score st > - 50) scored"]
    by (simp add: content dc2)
  have content_unmarked: "\<not> st_isDiscovery st" if "st \<in> set content" for st
  proof -
    from that have "st \<in> set (filter (\<lambda>st. st_score st > - 50) scored)"
      unfolding content using set_slice_to by (rule subsetD [rotated])
    then have "st \<in> ?mk ` set allTracks"
      by (simp add: scored)
    then show ?thesis by auto
  qed
  \<comment> \<open>at least two ids of the catalog are not in the slate\<close>
  let ?C = "(\<lambda>st. t_id (st_track st)) ` set content"
  let ?T = "{t \<in> set allTracks. t_id t \<notin> ?C}"
  have ids: "card (t_id ` set allTracks) = length allTracks"
    using assms(3) by (metis distinct_card length_map set_map)
  have "card ?C \<le> length content"
    by (rule order_trans [OF card_image_le card_length]) simp
  with len_content have cardC: "card ?C \<le> 18"
    by simp
  have "card (t_id ` set allTracks) - card ?C \<le> card (t_id ` set allTracks - ?C)"
    by (rule diff_card_le_card_Diff) simp
  with ids assms(2) cardC have two: "2 \<le> card (t_id ` set allTracks - ?C)"
    by linarith
  have "t_id ` set allTracks - ?C = (\<lambda>st. t_id (st_track st)) ` ?mk ` ?T"
    by (auto simp: image_iff)
  then have "card (t_id ` set allTracks - ?C) \<le> card (?mk ` ?T)"
    by (simp add: card_image_le)
  moreover have "?mk ` ?T \<subseteq> set pool"
    using assms(4) by (auto simp: pool scored list_ex_iff image_iff)
  then have "card (?mk ` ?T) \<le> card (set pool)"
    by (intro card_mono) simp_all
  ultimately have pool2: "2 \<le> length pool"
    using two card_length [of pool] by linarith
  \<comment> \<open>both picks are made, and both are in the result\<close>
  let ?disc = "discoveryLoop rnd 0 dc pool []"
  let ?final = "interleave (20 - dc) dc 0 ?disc content"
  have len_disc: "length ?disc = 2"
    using discoveryLoop_count [OF assms(1), of 0 dc pool "[]"] pool2 by (simp add: dc2)
  have marked: "st_isDiscovery st" if "st \<in> set ?disc" for st
    using discoveryLoop_picks [OF assms(1), of 0 dc pool "[]"] that by auto
  have len: "length ?final \<le> 20"
    using len_content len_disc by (simp add: length_interleave)
  then have all: "getRecommendations rnd now stored allTracks (Some p) 20 = ?final"
    unfolding out by (intro slice_to_all) simp
  have "filter st_isDiscovery ?disc = ?disc"
    using marked by (simp add: filter_id_conv)
  moreover have "filter st_isDiscovery content = []"
    using content_unmarked by (simp add: filter_empty_conv)
  ultimately have count: "length (filter st_isDiscovery ?final) = 2"
    by (simp add: length_filter_interleave len_disc)
  have "?disc \<noteq> []"
    using len_disc by auto
  then obtain st where st: "st \<in> set ?disc"
    by (cases ?disc) auto
  then have "st \<in> set ?final" "st_isDiscovery st"
    using marked by (simp_all add: set_interleave)
  with len count show ?thesis
    unfolding all by blast
qed

lemma catalog20_evaluated:
  "map (\<lambda>st. (t_id (st_track st), st_isDiscovery st))
        (getRecommendations (\<lambda>_. 0) (\<lambda>_. 0) NoItem catalog20 (Some (freshProfile (\<lambda>_. 0))) 20)
      = [(''t01'', False), (''t02'', False), (''t03'', False), (''t19'', True), (''t04'', False),
         (''t05'', False), (''t06'', False), (''t07'', False), (''t08'', False), (''t09'', False),
         (''t10'', False), (''t11'', False), (''t20'', True), (''t12'', False), (''t13'', False),
         (''t14'', False), (''t15'', False), (''t16'', False), (''t17'', False), (''t18'', False)]"
  by code_simp

theorem discovery_quota_witness:
  "(\<forall>i. (0::real) \<le> (\<lambda>_. 0) i \<and> (\<lambda>_. 0::real) i < 1)
   \<and> 20 \<le> length catalog20
   \<and> distinct (map t_id catalog20)
   \<and> dislikedSongs (freshProfile (\<lambda>_. 0)) = []
   \<and> length (getRecommendations (\<lambda>_. 0) (\<lambda>_. 0) NoItem catalog20 (Some (freshProfile (\<lambda>_. 0))) 20)
        \<le> 20
   \<and> list_ex st_isDiscovery
        (getRecommendations (\<lambda>_. 0) (\<lambda>_. 0) NoItem catalog20 (Some (freshProfile (\<lambda>_. 0))) 20)
   \<and> length (filter st_isDiscovery
        (getRecommendations (\<lambda>_. 0) (\<lambda>_. 0) NoItem catalog20 (Some (freshProfile (\<lambda>_. 0))) 20))
       = 2
   \<and> map (\<lambda>st. (t_id (st_track st), st_isDiscovery st))
        (getRecommendations (\<lambda>_. 0) (\<lambda>_. 0) NoItem catalog20 (Some (freshProfile (\<lambda>_. 0))) 20)
      = [(''t01'', False), (''t02'', False), (''t03'', False), (''t19'', True), (''t04'', False),
         (''t05'', False), (''t06'', False), (''t07'', False), (''t08'', False), (''t09'', False),
         (''t10'', False), (''t11'', False), (''t20'', True), (''t12'', False), (''t13'', False),
         (''t14'', False), (''t15'', False), (''t16'', False), (''t17'', False), (''t18'', False)]"
proof -
  have r: "\<forall>i. (0::real) \<le> (\<lambda>_. 0) i \<and> (\<lambda>_. 0::real) i < 1"
    by simp
  have l: "20 \<le> length catalog20"
    by (simp add: catalog20_def)
  have c: "distinct (map t_id catalog20)"
    by (simp add: catalog20_def mkTrack_def)
  have n: "dislikedSongs (freshProfile (\<lambda>_. 0)) = []"
    by (rule freshProfile_fields)
  have d: "\<forall>t\<in>set catalog20. t_id t \<notin> set (dislikedSongs (freshProfile (\<lambda>_. 0)))"
    by (simp add: n)
  from discovery_quota [OF r l c d, of "\<lambda>_. 0" NoItem] r l c n catalog20_evaluated
  show ?thesis
    by (simp only: list_ex_iff simp_thms)
qed

end
